theory Spec2Isabelle
  imports Main "HOL-Library.Word"
begin

unbundle bit_operations_syntax

section \<open>Data model (asm/instruction.go)\<close>

text \<open>
  The package's \<open>OpCode\<close> and \<open>Register\<close> types are declared in files that are not part
  of the source at hand; \<open>instruction.go\<close> only uses them. An opcode is the one byte
  that \<open>bpfInstruction\<close> stores first, a register is an unsigned byte of which the
  codec keeps the low four bits (Go has no narrower integer type, and every wider one
  gives the same packed byte).
\<close>

type_synonym byte = "8 word"
type_synonym OpCode = "8 word"
type_synonym Register = "8 word"

text \<open>\<open>InstructionSize\<close>, line 14.\<close>

definition InstructionSize :: "64 word" where
  "InstructionSize = 8"

text \<open>\<open>type Instruction struct\<close>, lines 17-25.\<close>

record Instruction =
  OpCode :: OpCode
  Dst :: Register
  Src :: Register
  Offset :: "16 word"
  Constant :: "64 word"
  Reference :: string
  Symbol :: string

text \<open>\<open>type bpfInstruction struct\<close>, lines 426-431; \<open>bpfRegisters\<close> is a \<open>uint8\<close>.\<close>

record bpfInstruction =
  bi_OpCode :: OpCode
  bi_Registers :: byte
  bi_Offset :: "16 word"
  bi_Constant :: "32 word"

text \<open>
  The queries and constants of the opcode and register files that \<open>instruction.go\<close>
  calls. Their bodies are absent, so they are parameters of every function below: each
  theorem holds for whatever these are.
\<close>

record opcodes =
  isDWordLoad :: "OpCode \<Rightarrow> bool"
  Class :: "OpCode \<Rightarrow> 8 word"
  JumpOp :: "OpCode \<Rightarrow> 8 word"
  InvalidOpCode :: OpCode
  JumpClass :: "8 word"
  Call :: "8 word"
  PseudoMapFD :: Register
  PseudoMapValue :: Register
  PseudoCall :: Register

text \<open>
  Modelled from the spec: \<open>OpCode.marshalledInstructions\<close> is missing from the source.
  The spec has it return the slot count, 1 or 2, where "double-wide loads occupy two
  consecutive physical 8-byte slots, and slot-offset accounting must count them as 2,
  not 1".
\<close>

definition marshalledInstructions :: "opcodes \<Rightarrow> OpCode \<Rightarrow> int" where
  "marshalledInstructions ops op = (if isDWordLoad ops op then 2 else 1)"

text \<open>
  One instance of the parameters, used where a theorem is evaluated at a concrete
  program: the values of the Linux eBPF instruction set (\<open>BPF_LD | BPF_IMM | BPF_DW\<close>
  is \<open>0x18\<close>, the class is the low three bits with \<open>BPF_JMP = 0x05\<close>, the jump
  operation is the high nibble with \<open>BPF_CALL = 0x80\<close>, \<open>BPF_PSEUDO_MAP_FD = 1\<close>,
  \<open>BPF_PSEUDO_MAP_VALUE = 2\<close>, \<open>BPF_PSEUDO_CALL = 1\<close>).
\<close>

definition ebpf :: opcodes where
  "ebpf = \<lparr> isDWordLoad = (\<lambda>op. op = 0x18),
            Class = (\<lambda>op. op AND 0x07),
            JumpOp = (\<lambda>op. if op AND 0x07 \<noteq> 0x05 then 0xff else op AND 0xf0),
            InvalidOpCode = 0xff,
            JumpClass = 0x05,
            Call = 0x80,
            PseudoMapFD = 1,
            PseudoMapValue = 2,
            PseudoCall = 1 \<rparr>"

text \<open>
  Errors as values. The first two are \<open>io.EOF\<close> and \<open>io.ErrUnexpectedEOF\<close>; the others
  are the errors \<open>instruction.go\<close> creates, one constructor per message, with the
  values the message is formatted from.
\<close>

datatype error =
    EOF
  | ErrUnexpectedEOF
  | MissingSecondHalf  \<comment> \<open>"64bit immediate is missing second half"\<close>
  | NonZeroFields  \<comment> \<open>"64bit immediate has non-zero fields"\<close>
  | InvalidOpcodeError  \<comment> \<open>"invalid opcode"\<close>
  | Not64BitLoad OpCode  \<comment> \<open>"%s is not a 64 bit load"\<close>
  | NotMapLoad  \<comment> \<open>"not a load from a map"\<close>
  | NotDirectMapLoad  \<comment> \<open>"not a direct load from a map"\<close>
  | EmptySymbol  \<comment> \<open>"empty symbol"\<close>
  | unreferencedSymbolError string  \<comment> \<open>the struct of lines 447-449\<close>
  | DuplicateSymbol string  \<comment> \<open>"duplicate symbol %s"\<close>
  | MissingSymbol nat string  \<comment> \<open>"instruction %d: reference to missing symbol %s"\<close>
  | InstructionError nat error  \<comment> \<open>"instruction %d: %w"\<close>

section \<open>encoding/binary on the 8-byte struct\<close>

datatype ByteOrder = LittleEndian | BigEndian

definition PutUint16 :: "ByteOrder \<Rightarrow> 16 word \<Rightarrow> byte list" where
  "PutUint16 bo v =
     (case bo of
        LittleEndian \<Rightarrow> [ucast v, ucast (drop_bit 8 v)]
      | BigEndian \<Rightarrow> [ucast (drop_bit 8 v), ucast v])"

definition PutUint32 :: "ByteOrder \<Rightarrow> 32 word \<Rightarrow> byte list" where
  "PutUint32 bo v =
     (case bo of
        LittleEndian \<Rightarrow>
          [ucast v, ucast (drop_bit 8 v), ucast (drop_bit 16 v), ucast (drop_bit 24 v)]
      | BigEndian \<Rightarrow>
          [ucast (drop_bit 24 v), ucast (drop_bit 16 v), ucast (drop_bit 8 v), ucast v])"

definition Uint16 :: "ByteOrder \<Rightarrow> byte \<Rightarrow> byte \<Rightarrow> 16 word" where
  "Uint16 bo b0 b1 =
     (case bo of
        LittleEndian \<Rightarrow> ucast b0 OR push_bit 8 (ucast b1)
      | BigEndian \<Rightarrow> ucast b1 OR push_bit 8 (ucast b0))"

definition Uint32 :: "ByteOrder \<Rightarrow> byte \<Rightarrow> byte \<Rightarrow> byte \<Rightarrow> byte \<Rightarrow> 32 word" where
  "Uint32 bo b0 b1 b2 b3 =
     (case bo of
        LittleEndian \<Rightarrow>
          ucast b0 OR push_bit 8 (ucast b1) OR push_bit 16 (ucast b2) OR push_bit 24 (ucast b3)
      | BigEndian \<Rightarrow>
          ucast b3 OR push_bit 8 (ucast b2) OR push_bit 16 (ucast b1) OR push_bit 24 (ucast b0))"

text \<open>
  \<open>binary.Write(w, bo, &bpfi)\<close>: the fields in declaration order, the two multi-byte
  ones in the given byte order. The sink is an in-memory buffer: it is the list of the
  bytes written so far, and a write never fails.
\<close>

definition binary_Write :: "ByteOrder \<Rightarrow> bpfInstruction \<Rightarrow> byte list" where
  "binary_Write bo bi =
     [bi_OpCode bi, bi_Registers bi] @ PutUint16 bo (bi_Offset bi) @ PutUint32 bo (bi_Constant bi)"

text \<open>
  \<open>binary.Read(r, bo, &bi)\<close> on a reader that holds the bytes \<open>r\<close>: it fills eight
  bytes with \<open>io.ReadFull\<close>, which reports \<open>io.EOF\<close> when there is no byte at all and
  \<open>io.ErrUnexpectedEOF\<close> when there are between one and seven. The second component
  is what is left in the reader.
\<close>

fun binary_Read :: "ByteOrder \<Rightarrow> byte list \<Rightarrow> (error + bpfInstruction) \<times> byte list" where
  "binary_Read bo (b0 # b1 # b2 # b3 # b4 # b5 # b6 # b7 # r) =
     (Inr \<lparr> bi_OpCode = b0, bi_Registers = b1, bi_Offset = Uint16 bo b2 b3,
            bi_Constant = Uint32 bo b4 b5 b6 b7 \<rparr>, r)"
| "binary_Read bo [] = (Inl EOF, [])"
| "binary_Read bo r = (Inl ErrUnexpectedEOF, [])"

section \<open>The instruction codec\<close>

text \<open>\<open>newBPFRegisters\<close>, \<open>bpfRegisters.Dst\<close>, \<open>bpfRegisters.Src\<close>: lines 435-445.\<close>

definition newBPFRegisters :: "Register \<Rightarrow> Register \<Rightarrow> byte" where
  "newBPFRegisters dst src = push_bit 4 src OR (dst AND 0xF)"

definition Registers_Dst :: "byte \<Rightarrow> Register" where
  "Registers_Dst r = r AND 0xF"

definition Registers_Src :: "byte \<Rightarrow> Register" where
  "Registers_Src r = drop_bit 4 r"

text \<open>
  \<open>Instruction.Unmarshal\<close>, lines 34-62. The receiver \<open>ins\<close> is written through a
  pointer, so the instruction is returned also when the call fails: the fields of the
  first slot are already stored then. \<open>Reference\<close> and \<open>Symbol\<close> are never assigned.
  The result is the receiver, the reader and either the error or the byte count.
\<close>

definition Instruction_Unmarshal ::
  "opcodes \<Rightarrow> Instruction \<Rightarrow> byte list \<Rightarrow> ByteOrder \<Rightarrow> Instruction \<times> byte list \<times> (error + 64 word)" where
  "Instruction_Unmarshal ops ins r bo =
     (case binary_Read bo r of
        (Inl err, r1) \<Rightarrow> (ins, r1, Inl err)
      | (Inr bi, r1) \<Rightarrow>
          let ins1 = ins\<lparr> OpCode := bi_OpCode bi,
                          Dst := Registers_Dst (bi_Registers bi),
                          Src := Registers_Src (bi_Registers bi),
                          Offset := bi_Offset bi,
                          Constant := scast (bi_Constant bi) \<rparr>
          in if \<not> isDWordLoad ops (bi_OpCode bi) then (ins1, r1, Inr InstructionSize)
             else
               (case binary_Read bo r1 of
                  (Inl err, r2) \<Rightarrow> (ins1, r2, Inl MissingSecondHalf)
                | (Inr bi2, r2) \<Rightarrow>
                    if bi_OpCode bi2 \<noteq> 0 \<or> bi_Offset bi2 \<noteq> 0 \<or> bi_Registers bi2 \<noteq> 0
                    then (ins1, r2, Inl NonZeroFields)
                    else (ins1\<lparr> Constant :=
                                  push_bit 32 (ucast (bi_Constant bi2) :: 64 word)
                                  OR (ucast (bi_Constant bi) :: 64 word) \<rparr>,
                          r2, Inr (2 * InstructionSize))))"

text \<open>
  \<open>Instruction.Marshal\<close>, lines 65-102. \<open>int32(ins.Constant)\<close> and
  \<open>int32(uint32(ins.Constant))\<close> both keep the low 32 bits; \<open>ins.Constant >> 32\<close> is
  the arithmetic shift of an \<open>int64\<close>. The result is the sink and either the error or
  the byte count.
\<close>

definition Instruction_Marshal ::
  "opcodes \<Rightarrow> Instruction \<Rightarrow> byte list \<Rightarrow> ByteOrder \<Rightarrow> byte list \<times> (error + 64 word)" where
  "Instruction_Marshal ops ins w bo =
     (if OpCode ins = InvalidOpCode ops then (w, Inl InvalidOpcodeError)
      else
        let isDWordLoad' = isDWordLoad ops (OpCode ins);
            cons = (if isDWordLoad' then ucast (ucast (Constant ins) :: 32 word)
                    else ucast (Constant ins)) :: 32 word;
            bpfi = \<lparr> bi_OpCode = OpCode ins,
                     bi_Registers = newBPFRegisters (Dst ins) (Src ins),
                     bi_Offset = Offset ins,
                     bi_Constant = cons \<rparr>;
            w1 = w @ binary_Write bo bpfi
        in if \<not> isDWordLoad' then (w1, Inr InstructionSize)
           else
             let bpfi2 = \<lparr> bi_OpCode = 0, bi_Registers = 0, bi_Offset = 0,
                           bi_Constant = ucast (signed_drop_bit 32 (Constant ins)) \<rparr>
             in (w1 @ binary_Write bo bpfi2, Inr (2 * InstructionSize)))"

text \<open>
  \<open>Instruction.RewriteMapPtr\<close>, lines 107-121. \<open>fd\<close> is a Go \<open>int\<close>; \<open>uint32(fd)\<close> is
  its value modulo \<open>2^32\<close> whatever the width of \<open>int\<close>. The receiver is changed only
  when the call succeeds.
\<close>

definition Instruction_RewriteMapPtr :: "opcodes \<Rightarrow> Instruction \<Rightarrow> int \<Rightarrow> error + Instruction" where
  "Instruction_RewriteMapPtr ops ins fd =
     (if \<not> isDWordLoad ops (OpCode ins) then Inl (Not64BitLoad (OpCode ins))
      else if Src ins \<noteq> PseudoMapFD ops \<and> Src ins \<noteq> PseudoMapValue ops then Inl NotMapLoad
      else
        let offset = Constant ins AND push_bit 32 (0xFFFFFFFF :: 64 word);
            rawFd = (ucast (word_of_int fd :: 32 word) :: 64 word)
        in Inr (ins\<lparr> Constant := offset OR rawFd \<rparr>))"

text \<open>\<open>Instruction.mapPtr\<close>, lines 123-125.\<close>

definition mapPtr :: "Instruction \<Rightarrow> 32 word" where
  "mapPtr ins = ucast (Constant ins AND (0xFFFFFFFF :: 64 word))"

text \<open>\<open>Instruction.RewriteMapOffset\<close>, lines 130-142.\<close>

definition Instruction_RewriteMapOffset :: "opcodes \<Rightarrow> Instruction \<Rightarrow> 32 word \<Rightarrow> error + Instruction" where
  "Instruction_RewriteMapOffset ops ins offset =
     (if \<not> isDWordLoad ops (OpCode ins) then Inl (Not64BitLoad (OpCode ins))
      else if Src ins \<noteq> PseudoMapValue ops then Inl NotDirectMapLoad
      else
        let fd = Constant ins AND (0xFFFFFFFF :: 64 word)
        in Inr (ins\<lparr> Constant := push_bit 32 (ucast offset :: 64 word) OR fd \<rparr>))"

text \<open>\<open>Instruction.mapOffset\<close>, lines 144-146.\<close>

definition mapOffset :: "Instruction \<Rightarrow> 32 word" where
  "mapOffset ins = ucast (drop_bit 32 (Constant ins))"

section \<open>Instruction sequences\<close>

text \<open>
  \<open>Instructions.RewriteMapPtr\<close>, lines 245-269. The slice is patched in place, so the
  sequence is returned together with the error (\<open>None\<close> is Go's \<open>nil\<close>): when an
  instruction is refused, the ones before it stay rewritten. The loop carries \<open>found\<close>.
\<close>

fun RewriteMapPtr_loop ::
  "opcodes \<Rightarrow> string \<Rightarrow> int \<Rightarrow> bool \<Rightarrow> Instruction list \<Rightarrow> Instruction list \<times> (error + bool)" where
  "RewriteMapPtr_loop ops symbol fd found [] = ([], Inr found)"
| "RewriteMapPtr_loop ops symbol fd found (ins # rest) =
     (if Reference ins \<noteq> symbol then
        (case RewriteMapPtr_loop ops symbol fd found rest of
           (rest', res) \<Rightarrow> (ins # rest', res))
      else
        (case Instruction_RewriteMapPtr ops ins fd of
           Inl err \<Rightarrow> (ins # rest, Inl err)
         | Inr ins' \<Rightarrow>
             (case RewriteMapPtr_loop ops symbol fd True rest of
                (rest', res) \<Rightarrow> (ins' # rest', res))))"

definition Instructions_RewriteMapPtr ::
  "opcodes \<Rightarrow> Instruction list \<Rightarrow> string \<Rightarrow> int \<Rightarrow> Instruction list \<times> error option" where
  "Instructions_RewriteMapPtr ops insns symbol fd =
     (if symbol = [] then (insns, Some EmptySymbol)
      else
        (case RewriteMapPtr_loop ops symbol fd False insns of
           (insns', Inl err) \<Rightarrow> (insns', Some err)
         | (insns', Inr found) \<Rightarrow>
             if \<not> found then (insns', Some (unreferencedSymbolError symbol))
             else (insns', None)))"

text \<open>
  \<open>Instructions.SymbolOffsets\<close>, lines 273-289. The Go map is a partial function; the
  loop carries the map and the index \<open>i\<close>.
\<close>

fun SymbolOffsets_loop ::
  "(string \<rightharpoonup> int) \<Rightarrow> int \<Rightarrow> Instruction list \<Rightarrow> error + (string \<rightharpoonup> int)" where
  "SymbolOffsets_loop offsets i [] = Inr offsets"
| "SymbolOffsets_loop offsets i (ins # rest) =
     (if Symbol ins = [] then SymbolOffsets_loop offsets (i + 1) rest
      else if offsets (Symbol ins) \<noteq> None then Inl (DuplicateSymbol (Symbol ins))
      else SymbolOffsets_loop (offsets(Symbol ins \<mapsto> i)) (i + 1) rest)"

definition SymbolOffsets :: "Instruction list \<Rightarrow> error + (string \<rightharpoonup> int)" where
  "SymbolOffsets insns = SymbolOffsets_loop Map.empty 0 insns"

text \<open>\<open>Instructions.marshalledOffsets\<close>, lines 307-327.\<close>

fun marshalledOffsets_loop ::
  "opcodes \<Rightarrow> (string \<rightharpoonup> int) \<Rightarrow> int \<Rightarrow> Instruction list \<Rightarrow> error + (string \<rightharpoonup> int)" where
  "marshalledOffsets_loop ops symbols marshalledPos [] = Inr symbols"
| "marshalledOffsets_loop ops symbols marshalledPos (ins # rest) =
     (let currentPos = marshalledPos;
          marshalledPos' = marshalledPos + marshalledInstructions ops (OpCode ins)
      in if Symbol ins = [] then marshalledOffsets_loop ops symbols marshalledPos' rest
         else if symbols (Symbol ins) \<noteq> None then Inl (DuplicateSymbol (Symbol ins))
         else marshalledOffsets_loop ops (symbols(Symbol ins \<mapsto> currentPos)) marshalledPos' rest)"

definition marshalledOffsets :: "opcodes \<Rightarrow> Instruction list \<Rightarrow> error + (string \<rightharpoonup> int)" where
  "marshalledOffsets ops insns = marshalledOffsets_loop ops Map.empty 0 insns"

text \<open>
  The \<open>switch\<close> of \<open>Instructions.Marshal\<close>, lines 396-414, on the loop's copy of the
  instruction. \<open>offset\<close> and \<open>num\<close> are Go \<open>int\<close>s that count slots of a sequence held
  in memory, so \<open>offset - num - 1\<close> does not overflow; the conversions to \<open>int64\<close> and
  \<open>int16\<close> are \<open>word_of_int\<close>, which narrows by dropping the high bits.
\<close>

definition Marshal_switch ::
  "opcodes \<Rightarrow> (string \<rightharpoonup> int) \<Rightarrow> nat \<Rightarrow> int \<Rightarrow> Instruction \<Rightarrow> error + Instruction" where
  "Marshal_switch ops absoluteOffsets i num ins =
     (if JumpOp ops (OpCode ins) = Call ops \<and> Constant ins = - 1 then
        (case absoluteOffsets (Reference ins) of
           None \<Rightarrow> Inl (MissingSymbol i (Reference ins))
         | Some offset \<Rightarrow> Inr (ins\<lparr> Constant := word_of_int (offset - num - 1) \<rparr>))
      else if Class ops (OpCode ins) = JumpClass ops \<and> Offset ins = - 1 then
        (case absoluteOffsets (Reference ins) of
           None \<Rightarrow> Inl (MissingSymbol i (Reference ins))
         | Some offset \<Rightarrow> Inr (ins\<lparr> Offset := word_of_int (offset - num - 1) \<rparr>))
      else Inr ins)"

text \<open>
  The loop of \<open>Instructions.Marshal\<close>, lines 394-423, carrying the index \<open>i\<close>, the slot
  counter \<open>num\<close> and the sink. Bytes written before an error stay in the sink.
\<close>

fun Marshal_loop ::
  "opcodes \<Rightarrow> ByteOrder \<Rightarrow> (string \<rightharpoonup> int) \<Rightarrow> nat \<Rightarrow> int \<Rightarrow> Instruction list \<Rightarrow> byte list
     \<Rightarrow> byte list \<times> error option" where
  "Marshal_loop ops bo absoluteOffsets i num [] w = (w, None)"
| "Marshal_loop ops bo absoluteOffsets i num (ins # rest) w =
     (case Marshal_switch ops absoluteOffsets i num ins of
        Inl err \<Rightarrow> (w, Some err)
      | Inr ins' \<Rightarrow>
          (case Instruction_Marshal ops ins' w bo of
             (w', Inl err) \<Rightarrow> (w', Some (InstructionError i err))
           | (w', Inr n) \<Rightarrow>
               Marshal_loop ops bo absoluteOffsets (Suc i) (num + uint (n div InstructionSize))
                 rest w'))"

text \<open>\<open>Instructions.Marshal\<close>, lines 388-424.\<close>

definition Instructions_Marshal ::
  "opcodes \<Rightarrow> Instruction list \<Rightarrow> byte list \<Rightarrow> ByteOrder \<Rightarrow> byte list \<times> error option" where
  "Instructions_Marshal ops insns w bo =
     (case marshalledOffsets ops insns of
        Inl err \<Rightarrow> (w, Some err)
      | Inr absoluteOffsets \<Rightarrow> Marshal_loop ops bo absoluteOffsets 0 0 insns w)"

text \<open>
  \<open>IsUnreferencedSymbol\<close>, lines 457-460: a type assertion on the error value itself,
  which does not look inside a wrapped error and is false on \<open>nil\<close>.
\<close>

fun IsUnreferencedSymbol :: "error option \<Rightarrow> bool" where
  "IsUnreferencedSymbol (Some (unreferencedSymbolError s)) = True"
| "IsUnreferencedSymbol err = False"

section \<open>Concrete instructions\<close>

text \<open>
  Instructions of the instance \<open>ebpf\<close> at which the theorems below are evaluated: a
  double-wide load of a map value (\<open>src = 2\<close>) whose constant packs offset 5 and
  handle 3, and a 64-bit add of an immediate (opcode \<open>0x07\<close>) with the same registers.
\<close>

definition LoadMapValue_ins :: Instruction where
  "LoadMapValue_ins =
     \<lparr> OpCode = 0x18, Dst = 1, Src = 2, Offset = 0, Constant = 0x0000000500000003,
       Reference = ''m'', Symbol = [] \<rparr>"

definition Add_ins :: Instruction where
  "Add_ins =
     \<lparr> OpCode = 0x07, Dst = 1, Src = 2, Offset = 0, Constant = 0x0000000500000003,
       Reference = ''m'', Symbol = [] \<rparr>"

definition Mov_ins :: Instruction where
  "Mov_ins =
     \<lparr> OpCode = 0xb7, Dst = 0, Src = 0, Offset = 0, Constant = 0,
       Reference = [], Symbol = [] \<rparr>"

text \<open>
  Go's zero \<open>Instruction\<close>, the receiver a decoder starts from, and a move that
  carries a symbol, the register number 17 and the constant \<open>0x1_0000_0001\<close>; the
  same constant in a double-wide load of an immediate.
\<close>

definition zero_ins :: Instruction where
  "zero_ins =
     \<lparr> OpCode = 0, Dst = 0, Src = 0, Offset = 0, Constant = 0, Reference = [], Symbol = [] \<rparr>"

definition Mov_odd_ins :: Instruction where
  "Mov_odd_ins =
     \<lparr> OpCode = 0xb7, Dst = 0x11, Src = 0, Offset = 0, Constant = 0x100000001,
       Reference = [], Symbol = ''L'' \<rparr>"

definition LoadImm_ins :: Instruction where
  "LoadImm_ins =
     \<lparr> OpCode = 0x18, Dst = 1, Src = 0, Offset = 0, Constant = 0x100000001,
       Reference = [], Symbol = [] \<rparr>"

text \<open>
  Two programs: one tags two instructions with the symbol \<open>X\<close>; the other starts with
  a double-wide load, so that the slot of its last instruction (3) differs from its index
  (2).
\<close>

definition dup_prog :: "Instruction list" where
  "dup_prog = [Mov_ins\<lparr>Symbol := ''X''\<rparr>, Mov_ins, Mov_ins\<lparr>Symbol := ''X''\<rparr>]"

definition wide_prog :: "Instruction list" where
  "wide_prog = [LoadMapValue_ins\<lparr>Symbol := ''start''\<rparr>, Mov_ins, Mov_ins\<lparr>Symbol := ''L''\<rparr>]"

text \<open>
  A jump whose offset is pending (\<open>- 1\<close>) with the reference \<open>L\<close>, and the program
  \<open>[jump, nop, nop:L]\<close>, the move standing for the no-operation.
\<close>

definition Ja_ins :: Instruction where
  "Ja_ins =
     \<lparr> OpCode = 0x05, Dst = 0, Src = 0, Offset = - 1, Constant = 0,
       Reference = ''L'', Symbol = [] \<rparr>"

definition jump_prog :: "Instruction list" where
  "jump_prog = [Ja_ins, Mov_ins, Mov_ins\<lparr>Symbol := ''L''\<rparr>]"

text \<open>
  A call of a function of the program (\<open>src\<close> is the call pseudo-register 1) whose
  constant is pending, placed after its target and a double-wide load.
\<close>

definition Call_ins :: Instruction where
  "Call_ins =
     \<lparr> OpCode = 0x85, Dst = 0, Src = 1, Offset = 0, Constant = - 1,
       Reference = ''f'', Symbol = [] \<rparr>"

definition call_prog :: "Instruction list" where
  "call_prog = [Mov_ins\<lparr>Symbol := ''f''\<rparr>, LoadImm_ins, Call_ins]"

text \<open>
  A call whose \<open>src\<close> is 0, not the call pseudo-register, with the constant \<open>- 1\<close>;
  and an instruction with the invalid opcode.
\<close>

definition HelperCall_ins :: Instruction where
  "HelperCall_ins =
     \<lparr> OpCode = 0x85, Dst = 0, Src = 0, Offset = 0, Constant = - 1,
       Reference = ''f'', Symbol = [] \<rparr>"

definition helper_prog :: "Instruction list" where
  "helper_prog = [HelperCall_ins, Mov_ins, Mov_ins\<lparr>Symbol := ''f''\<rparr>]"

definition Invalid_ins :: Instruction where
  "Invalid_ins = Mov_ins\<lparr>OpCode := 0xff\<rparr>"

section \<open>Notions the claims are stated with\<close>

text \<open>The non-empty symbol names of a sequence, in order of appearance.\<close>

definition symbols_of :: "Instruction list \<Rightarrow> string list" where
  "symbols_of insns = filter (\<lambda>s. s \<noteq> []) (map Symbol insns)"

text \<open>The number of 8-byte slots of a sequence: 2 for a double-wide load, 1 otherwise.\<close>

definition slots :: "opcodes \<Rightarrow> Instruction list \<Rightarrow> int" where
  "slots ops insns = (\<Sum>ins\<leftarrow>insns. if isDWordLoad ops (OpCode ins) then 2 else 1)"

section \<open>Bits of the packed constant\<close>

lemma mask32: "(0xFFFFFFFF :: 64 word) = mask 32"
  by (simp add: mask_eq_exp_minus_1)

lemma himask32: "(0xFFFFFFFF00000000 :: 64 word) = NOT (mask 32)"
proof -
  have "(0xFFFFFFFF00000000 :: 64 word) = push_bit 32 (mask 32)"
    by (simp add: mask_eq_exp_minus_1)
  also have "\<dots> = NOT (mask 32)"
    by (rule bit_word_eqI) (auto simp add: bit_simps)
  finally show ?thesis .
qed

lemma bit32_lt: "bit (w :: 32 word) n \<Longrightarrow> n < 32"
  by (auto dest: bit_imp_le_length)

lemma mapPtr_bit: "bit (mapPtr ins) n \<longleftrightarrow> n < 32 \<and> bit (Constant ins) n"
  by (auto simp add: mapPtr_def mask32 bit_simps)

lemma mapOffset_bit: "bit (mapOffset ins) n \<longleftrightarrow> n < 32 \<and> bit (Constant ins) (n + 32)"
  by (auto simp add: mapOffset_def bit_simps ac_simps)

text \<open>The two accessors together determine the constant.\<close>

lemma Constant_eqI:
  assumes "mapPtr a = mapPtr b" and "mapOffset a = mapOffset b"
  shows "Constant a = Constant b"
proof (rule bit_word_eqI)
  fix n assume n: "n < LENGTH(64)"
  show "bit (Constant a) n = bit (Constant b) n"
  proof (cases "n < 32")
    case True
    from assms(1) have "bit (mapPtr a) n = bit (mapPtr b) n" by simp
    with True show ?thesis by (simp add: mapPtr_bit)
  next
    case False
    from assms(2) have "bit (mapOffset a) (n - 32) = bit (mapOffset b) (n - 32)" by simp
    moreover from False n have "n - 32 < 32" "n - 32 + 32 = n" by simp_all
    ultimately show ?thesis by (simp add: mapOffset_bit)
  qed
qed

section \<open>Binding a handle and rebinding an offset\<close>

lemma RewriteMapPtr_Inr_iff:
  "(\<exists>ins'. Instruction_RewriteMapPtr ops ins fd = Inr ins') \<longleftrightarrow>
     isDWordLoad ops (OpCode ins) \<and> (Src ins = PseudoMapFD ops \<or> Src ins = PseudoMapValue ops)"
  by (auto simp add: Instruction_RewriteMapPtr_def Let_def)

lemma RewriteMapPtr_Inr:
  assumes "Instruction_RewriteMapPtr ops ins fd = Inr ins'"
  shows "mapPtr ins' = word_of_int fd" and "mapOffset ins' = mapOffset ins"
    and "ins' = ins\<lparr>Constant := Constant ins'\<rparr>"
proof -
  from assms have c: "ins' = ins\<lparr>Constant := Constant ins AND NOT (mask 32)
      OR ucast (word_of_int fd :: 32 word)\<rparr>"
    by (simp add: Instruction_RewriteMapPtr_def Let_def himask32 split: if_splits)
  show "mapPtr ins' = word_of_int fd"
    by (rule bit_word_eqI) (auto simp add: c mapPtr_bit bit_simps dest: bit32_lt)
  show "mapOffset ins' = mapOffset ins"
    by (rule bit_word_eqI) (auto simp add: c mapOffset_bit bit_simps dest: bit32_lt)
  show "ins' = ins\<lparr>Constant := Constant ins'\<rparr>"
    by (simp add: c)
qed

lemma RewriteMapOffset_Inr_iff:
  "(\<exists>ins'. Instruction_RewriteMapOffset ops ins off = Inr ins') \<longleftrightarrow>
     isDWordLoad ops (OpCode ins) \<and> Src ins = PseudoMapValue ops"
  by (auto simp add: Instruction_RewriteMapOffset_def Let_def)

lemma RewriteMapOffset_Inr:
  assumes "Instruction_RewriteMapOffset ops ins off = Inr ins'"
  shows "mapPtr ins' = mapPtr ins" and "mapOffset ins' = off"
    and "ins' = ins\<lparr>Constant := Constant ins'\<rparr>"
proof -
  from assms have c: "ins' = ins\<lparr>Constant := push_bit 32 (ucast off) OR (Constant ins AND mask 32)\<rparr>"
    by (simp add: Instruction_RewriteMapOffset_def Let_def mask32 split: if_splits)
  show "mapPtr ins' = mapPtr ins"
    by (rule bit_word_eqI) (auto simp add: c mapPtr_bit bit_simps dest: bit32_lt)
  show "mapOffset ins' = off"
    by (rule bit_word_eqI) (auto simp add: c mapOffset_bit bit_simps dest: bit32_lt)
  show "ins' = ins\<lparr>Constant := Constant ins'\<rparr>"
    by (simp add: c)
qed

lemma RewriteMapOffset_Constant:
  assumes "Instruction_RewriteMapOffset ops ins off = Inr ins'"
  shows "take_bit 32 (Constant ins') = take_bit 32 (Constant ins)"
    and "drop_bit 32 (Constant ins') = ucast off"
proof -
  from assms have c: "Constant ins' = push_bit 32 (ucast off) OR (Constant ins AND mask 32)"
    by (auto simp add: Instruction_RewriteMapOffset_def Let_def mask32 split: if_splits)
  show "take_bit 32 (Constant ins') = take_bit 32 (Constant ins)"
    unfolding c by (rule bit_word_eqI) (auto simp add: bit_simps)
  show "drop_bit 32 (Constant ins') = ucast off"
    unfolding c by (rule bit_word_eqI) (auto simp add: bit_simps dest: bit32_lt)
qed

lemma RewriteMapPtr_eq:
  assumes "isDWordLoad ops (OpCode ins)" and "Src ins = PseudoMapFD ops \<or> Src ins = PseudoMapValue ops"
  shows "Instruction_RewriteMapPtr ops ins fd =
    Inr (ins\<lparr>Constant := Constant ins AND NOT (mask 32) OR ucast (word_of_int fd :: 32 word)\<rparr>)"
  using assms by (auto simp add: Instruction_RewriteMapPtr_def Let_def himask32)

lemma RewriteMapOffset_eq:
  assumes "isDWordLoad ops (OpCode ins)" and "Src ins = PseudoMapValue ops"
  shows "Instruction_RewriteMapOffset ops ins off =
    Inr (ins\<lparr>Constant := push_bit 32 (ucast off) OR (Constant ins AND mask 32)\<rparr>)"
  using assms by (simp add: Instruction_RewriteMapOffset_def Let_def mask32)

lemma pack_commute:
  "push_bit 32 (ucast (off :: 32 word)) OR ((c AND NOT (mask 32) OR ucast (fd :: 32 word)) AND mask 32)
   = (push_bit 32 (ucast off) OR (c AND mask 32)) AND NOT (mask 32) OR (ucast fd :: 64 word)"
  by (rule bit_word_eqI) (auto simp add: bit_simps dest: bit32_lt)

section \<open>Claims on the packed constant\<close>

text \<open>
  C5. On a double-wide load whose \<open>src\<close> is the map-value pseudo-register (the only
  instructions both operations accept), binding the handle \<open>h\<close> and rebinding the
  offset \<open>off\<close> succeed in either order and give the same instruction; its handle
  accessor returns \<open>h\<close> truncated to 32 bits and its offset accessor returns \<open>off\<close>.
  Binding alone keeps the offset half, rebinding alone keeps the handle half.
\<close>

theorem bind_rebind_either_order:
  assumes dw: "isDWordLoad ops (OpCode ins)" and src: "Src ins = PseudoMapValue ops"
  shows "\<exists>a b ab.
      Instruction_RewriteMapPtr ops ins h = Inr a
    \<and> Instruction_RewriteMapOffset ops a off = Inr ab
    \<and> Instruction_RewriteMapOffset ops ins off = Inr b
    \<and> Instruction_RewriteMapPtr ops b h = Inr ab
    \<and> mapPtr ab = word_of_int h \<and> mapOffset ab = off
    \<and> mapOffset a = mapOffset ins \<and> mapPtr b = mapPtr ins"
proof -
  define a where "a = ins\<lparr>Constant := Constant ins AND NOT (mask 32) OR ucast (word_of_int h :: 32 word)\<rparr>"
  define b where "b = ins\<lparr>Constant := push_bit 32 (ucast off) OR (Constant ins AND mask 32)\<rparr>"
  define ab where "ab = a\<lparr>Constant := push_bit 32 (ucast off) OR (Constant a AND mask 32)\<rparr>"
  have a: "Instruction_RewriteMapPtr ops ins h = Inr a"
    using dw src by (simp add: RewriteMapPtr_eq a_def)
  have b: "Instruction_RewriteMapOffset ops ins off = Inr b"
    using dw src by (simp add: RewriteMapOffset_eq b_def)
  have ab: "Instruction_RewriteMapOffset ops a off = Inr ab"
    using dw src by (simp add: RewriteMapOffset_eq a_def ab_def)
  have "Instruction_RewriteMapPtr ops b h =
      Inr (b\<lparr>Constant := Constant b AND NOT (mask 32) OR ucast (word_of_int h :: 32 word)\<rparr>)"
    using dw src by (simp add: RewriteMapPtr_eq b_def)
  also have "b\<lparr>Constant := Constant b AND NOT (mask 32) OR ucast (word_of_int h :: 32 word)\<rparr> = ab"
    by (simp add: a_def b_def ab_def pack_commute)
  finally have ba: "Instruction_RewriteMapPtr ops b h = Inr ab" .
  from a b ab ba RewriteMapPtr_Inr(1)[OF ba] RewriteMapOffset_Inr(2)[OF ab]
    RewriteMapPtr_Inr(2)[OF a] RewriteMapOffset_Inr(1)[OF b]
  show ?thesis by blast
qed

theorem bind_rebind_either_order_witness:
  "isDWordLoad ebpf (OpCode LoadMapValue_ins) \<and> Src LoadMapValue_ins = PseudoMapValue ebpf
   \<and> (\<exists>a b ab.
      Instruction_RewriteMapPtr ebpf LoadMapValue_ins (2 ^ 32 + 7) = Inr a
    \<and> Instruction_RewriteMapOffset ebpf a 16 = Inr ab
    \<and> Instruction_RewriteMapOffset ebpf LoadMapValue_ins 16 = Inr b
    \<and> Instruction_RewriteMapPtr ebpf b (2 ^ 32 + 7) = Inr ab
    \<and> mapPtr ab = 7 \<and> mapOffset ab = 16
    \<and> mapOffset a = 5 \<and> mapPtr b = 3)"
proof -
  have dw: "isDWordLoad ebpf (OpCode LoadMapValue_ins)"
    by (simp add: ebpf_def LoadMapValue_ins_def)
  have src: "Src LoadMapValue_ins = PseudoMapValue ebpf"
    by (simp add: ebpf_def LoadMapValue_ins_def)
  have p: "mapPtr LoadMapValue_ins = 3"
    by (simp add: mapPtr_def LoadMapValue_ins_def)
  have "drop_bit 32 (0x0000000500000003 :: 64 word) = 5"
    by (simp add: drop_bit_eq_div)
  then have q: "mapOffset LoadMapValue_ins = 5"
    by (simp add: mapOffset_def LoadMapValue_ins_def)
  have r: "(word_of_int (2 ^ 32 + 7) :: 32 word) = 7"
    by simp
  from bind_rebind_either_order [OF dw src, of "2 ^ 32 + 7" 16] dw src
  show ?thesis unfolding p q r by simp
qed

text \<open>
  C9, as the code has it. Rebinding the offset fails exactly when the opcode is not a
  double-wide load or \<open>src\<close> is not the map-value pseudo-register. In every other case
  it succeeds, changes only the constant, keeps the constant's low 32 bits and sets its
  high 32 bits to the given offset.
\<close>

theorem RewriteMapOffset_fails_iff:
  "((\<exists>e. Instruction_RewriteMapOffset ops ins off = Inl e)
      \<longleftrightarrow> \<not> isDWordLoad ops (OpCode ins) \<or> Src ins \<noteq> PseudoMapValue ops)
   \<and> (isDWordLoad ops (OpCode ins) \<and> Src ins = PseudoMapValue ops \<longrightarrow>
        (\<exists>ins'. Instruction_RewriteMapOffset ops ins off = Inr ins'
           \<and> ins' = ins\<lparr>Constant := Constant ins'\<rparr>
           \<and> take_bit 32 (Constant ins') = take_bit 32 (Constant ins)
           \<and> drop_bit 32 (Constant ins') = ucast off))"
proof (intro conjI impI)
  show "(\<exists>e. Instruction_RewriteMapOffset ops ins off = Inl e)
      \<longleftrightarrow> \<not> isDWordLoad ops (OpCode ins) \<or> Src ins \<noteq> PseudoMapValue ops"
    by (auto simp add: Instruction_RewriteMapOffset_def Let_def)
next
  assume "isDWordLoad ops (OpCode ins) \<and> Src ins = PseudoMapValue ops"
  then obtain ins' where r: "Instruction_RewriteMapOffset ops ins off = Inr ins'"
    using RewriteMapOffset_Inr_iff [of ops ins off] by blast
  from r RewriteMapOffset_Inr(3) [OF r] RewriteMapOffset_Constant [OF r]
  show "\<exists>ins'. Instruction_RewriteMapOffset ops ins off = Inr ins'
           \<and> ins' = ins\<lparr>Constant := Constant ins'\<rparr>
           \<and> take_bit 32 (Constant ins') = take_bit 32 (Constant ins)
           \<and> drop_bit 32 (Constant ins') = ucast off"
    by blast
qed

theorem RewriteMapOffset_fails_iff_witness:
  "isDWordLoad ebpf (OpCode LoadMapValue_ins) \<and> Src LoadMapValue_ins = PseudoMapValue ebpf
   \<and> (\<exists>ins'. Instruction_RewriteMapOffset ebpf LoadMapValue_ins 16 = Inr ins'
           \<and> ins' = LoadMapValue_ins\<lparr>Constant := Constant ins'\<rparr>
           \<and> take_bit 32 (Constant ins') = take_bit 32 (Constant LoadMapValue_ins)
           \<and> drop_bit 32 (Constant ins') = 16)"
proof -
  have h: "isDWordLoad ebpf (OpCode LoadMapValue_ins) \<and> Src LoadMapValue_ins = PseudoMapValue ebpf"
    by (simp add: ebpf_def LoadMapValue_ins_def)
  from RewriteMapOffset_fails_iff [of ebpf LoadMapValue_ins 16] h
  show ?thesis by simp
qed

text \<open>
  C9 as stated fails: \<open>src\<close> is the map-value pseudo-register, yet the rebind is
  refused, because the opcode is not a double-wide load (line 131).
\<close>

theorem RewriteMapOffset_src_ok_but_fails:
  "Src Add_ins = PseudoMapValue ebpf
   \<and> Instruction_RewriteMapOffset ebpf Add_ins 16 = Inl (Not64BitLoad 0x07)"
  by (simp add: Instruction_RewriteMapOffset_def ebpf_def Add_ins_def)

section \<open>Claims on the sequence-level patch\<close>

text \<open>
  C10. With the empty string as the symbol, \<open>Instructions.RewriteMapPtr\<close> returns the
  "empty symbol" error and the sequence as it was, whatever the instructions are; that
  error is not an unreferenced-symbol error.
\<close>

theorem RewriteMapPtr_empty_symbol:
  "Instructions_RewriteMapPtr ops insns [] fd = (insns, Some EmptySymbol)
   \<and> \<not> IsUnreferencedSymbol (snd (Instructions_RewriteMapPtr ops insns [] fd))"
  by (simp add: Instructions_RewriteMapPtr_def)

theorem RewriteMapPtr_empty_symbol_witness:
  "Instructions_RewriteMapPtr ebpf [LoadMapValue_ins, Add_ins] [] 7
     = ([LoadMapValue_ins, Add_ins], Some EmptySymbol)
   \<and> \<not> IsUnreferencedSymbol (snd (Instructions_RewriteMapPtr ebpf [LoadMapValue_ins, Add_ins] [] 7))"
  using RewriteMapPtr_empty_symbol [of ebpf "[LoadMapValue_ins, Add_ins]" 7] by simp

section \<open>Symbol tables\<close>

lemma symbols_of_Cons:
  "symbols_of (ins # rest) = (if Symbol ins = [] then symbols_of rest else Symbol ins # symbols_of rest)"
  by (simp add: symbols_of_def)

lemma SymbolOffsets_loop_dup:
  "\<not> (distinct (symbols_of insns) \<and> dom offsets \<inter> set (symbols_of insns) = {})
   \<Longrightarrow> \<exists>s. s \<in> set (symbols_of insns) \<and> SymbolOffsets_loop offsets i insns = Inl (DuplicateSymbol s)"
proof (induction insns arbitrary: offsets i)
  case Nil
  then show ?case by (simp add: symbols_of_def)
next
  case (Cons ins rest)
  show ?case
  proof (cases "Symbol ins = []")
    case True
    with Cons.prems have "\<not> (distinct (symbols_of rest) \<and> dom offsets \<inter> set (symbols_of rest) = {})"
      by (simp add: symbols_of_Cons)
    from Cons.IH [OF this, of "i + 1"] True show ?thesis
      by (auto simp add: symbols_of_Cons)
  next
    case False
    show ?thesis
    proof (cases "offsets (Symbol ins)")
      case (Some a)
      with False show ?thesis by (auto simp add: symbols_of_Cons)
    next
      case None
      with Cons.prems False
      have "\<not> (distinct (symbols_of rest)
          \<and> dom (offsets(Symbol ins \<mapsto> i)) \<inter> set (symbols_of rest) = {})"
        by (auto simp add: symbols_of_Cons)
      from Cons.IH [OF this, of "i + 1"] obtain s where
        "s \<in> set (symbols_of rest)"
        "SymbolOffsets_loop (offsets(Symbol ins \<mapsto> i)) (i + 1) rest = Inl (DuplicateSymbol s)"
        by blast
      with False None show ?thesis
        by (intro exI [of _ s]) (simp add: symbols_of_Cons)
    qed
  qed
qed

lemma SymbolOffsets_loop_ok:
  "distinct (symbols_of insns) \<Longrightarrow> dom offsets \<inter> set (symbols_of insns) = {}
   \<Longrightarrow> \<exists>m. SymbolOffsets_loop offsets i insns = Inr m
         \<and> dom m = dom offsets \<union> set (symbols_of insns)
         \<and> (\<forall>s. s \<notin> set (symbols_of insns) \<longrightarrow> m s = offsets s)
         \<and> (\<forall>k<length insns. Symbol (insns ! k) \<noteq> [] \<longrightarrow> m (Symbol (insns ! k)) = Some (i + int k))"
proof (induction insns arbitrary: offsets i)
  case Nil
  then show ?case by (simp add: symbols_of_def)
next
  case (Cons ins rest)
  show ?case
  proof (cases "Symbol ins = []")
    case True
    with Cons.prems have d: "distinct (symbols_of rest)" "dom offsets \<inter> set (symbols_of rest) = {}"
      by (simp_all add: symbols_of_Cons)
    from Cons.IH [OF d, of "i + 1"] obtain m where
      m: "SymbolOffsets_loop offsets (i + 1) rest = Inr m"
         "dom m = dom offsets \<union> set (symbols_of rest)"
         "\<forall>s. s \<notin> set (symbols_of rest) \<longrightarrow> m s = offsets s"
         "\<forall>k<length rest. Symbol (rest ! k) \<noteq> [] \<longrightarrow> m (Symbol (rest ! k)) = Some (i + 1 + int k)"
      by blast
    have "\<forall>k<length (ins # rest). Symbol ((ins # rest) ! k) \<noteq> []
        \<longrightarrow> m (Symbol ((ins # rest) ! k)) = Some (i + int k)"
    proof (intro allI impI)
      fix k assume k: "k < length (ins # rest)" "Symbol ((ins # rest) ! k) \<noteq> []"
      with True obtain k' where k': "k = Suc k'" by (cases k) auto
      with k m(4) show "m (Symbol ((ins # rest) ! k)) = Some (i + int k)" by simp
    qed
    with m True show ?thesis by (simp add: symbols_of_Cons)
  next
    case False
    with Cons.prems have none: "offsets (Symbol ins) = None"
      by (auto simp add: symbols_of_Cons)
    from Cons.prems False have d: "distinct (symbols_of rest)"
      "dom (offsets(Symbol ins \<mapsto> i)) \<inter> set (symbols_of rest) = {}"
      and notin: "Symbol ins \<notin> set (symbols_of rest)"
      by (auto simp add: symbols_of_Cons)
    from Cons.IH [OF d, of "i + 1"] obtain m where
      m: "SymbolOffsets_loop (offsets(Symbol ins \<mapsto> i)) (i + 1) rest = Inr m"
         "dom m = dom (offsets(Symbol ins \<mapsto> i)) \<union> set (symbols_of rest)"
         "\<forall>s. s \<notin> set (symbols_of rest) \<longrightarrow> m s = (offsets(Symbol ins \<mapsto> i)) s"
         "\<forall>k<length rest. Symbol (rest ! k) \<noteq> [] \<longrightarrow> m (Symbol (rest ! k)) = Some (i + 1 + int k)"
      by blast
    from m(3) notin have here: "m (Symbol ins) = Some i" by simp
    have "\<forall>k<length (ins # rest). Symbol ((ins # rest) ! k) \<noteq> []
        \<longrightarrow> m (Symbol ((ins # rest) ! k)) = Some (i + int k)"
    proof (intro allI impI)
      fix k assume k: "k < length (ins # rest)" "Symbol ((ins # rest) ! k) \<noteq> []"
      show "m (Symbol ((ins # rest) ! k)) = Some (i + int k)"
      proof (cases k)
        case 0
        with here show ?thesis by simp
      next
        case (Suc k')
        with k m(4) show ?thesis by simp
      qed
    qed
    moreover from m(3) have "\<forall>s. s \<notin> set (symbols_of (ins # rest)) \<longrightarrow> m s = offsets s"
      using False by (auto simp add: symbols_of_Cons)
    ultimately show ?thesis using m(1,2) False none
      by (simp add: symbols_of_Cons)
  qed
qed


lemma slots_Cons: "slots ops (ins # rest) = marshalledInstructions ops (OpCode ins) + slots ops rest"
  by (simp add: slots_def marshalledInstructions_def)

lemma same_duplicate:
  "dom o1 = dom o2 \<Longrightarrow>
     SymbolOffsets_loop o1 i insns = Inl e \<longleftrightarrow> marshalledOffsets_loop ops o2 p insns = Inl e"
proof (induction insns arbitrary: o1 o2 i p)
  case Nil
  then show ?case by simp
next
  case (Cons ins rest)
  show ?case
  proof (cases "Symbol ins = []")
    case True
    with Cons.IH [OF Cons.prems] show ?thesis by (simp add: Let_def)
  next
    case False
    from Cons.prems have iff: "o1 (Symbol ins) = None \<longleftrightarrow> o2 (Symbol ins) = None"
      by (metis domIff)
    show ?thesis
    proof (cases "o1 (Symbol ins)")
      case None
      from Cons.prems have d: "dom (o1(Symbol ins \<mapsto> i)) = dom (o2(Symbol ins \<mapsto> p))" by simp
      have l: "SymbolOffsets_loop o1 i (ins # rest)
          = SymbolOffsets_loop (o1(Symbol ins \<mapsto> i)) (i + 1) rest"
        using None False by simp
      have r: "marshalledOffsets_loop ops o2 p (ins # rest)
          = marshalledOffsets_loop ops (o2(Symbol ins \<mapsto> p))
              (p + marshalledInstructions ops (OpCode ins)) rest"
        using None iff False by (simp add: Let_def)
      show ?thesis unfolding l r by (rule Cons.IH [OF d])
    next
      case (Some a)
      with iff False show ?thesis by (auto simp add: Let_def)
    qed
  qed
qed

lemma marshalledOffsets_loop_ok:
  "distinct (symbols_of insns) \<Longrightarrow> dom symbols \<inter> set (symbols_of insns) = {}
   \<Longrightarrow> \<exists>m. marshalledOffsets_loop ops symbols p insns = Inr m
         \<and> dom m = dom symbols \<union> set (symbols_of insns)
         \<and> (\<forall>s. s \<notin> set (symbols_of insns) \<longrightarrow> m s = symbols s)
         \<and> (\<forall>k<length insns. Symbol (insns ! k) \<noteq> []
               \<longrightarrow> m (Symbol (insns ! k)) = Some (p + slots ops (take k insns)))"
proof (induction insns arbitrary: symbols p)
  case Nil
  then show ?case by (simp add: symbols_of_def)
next
  case (Cons ins rest)
  define p' where "p' = p + marshalledInstructions ops (OpCode ins)"
  show ?case
  proof (cases "Symbol ins = []")
    case True
    with Cons.prems have d: "distinct (symbols_of rest)" "dom symbols \<inter> set (symbols_of rest) = {}"
      by (simp_all add: symbols_of_Cons)
    from Cons.IH [OF d, of p'] obtain m where
      m: "marshalledOffsets_loop ops symbols p' rest = Inr m"
         "dom m = dom symbols \<union> set (symbols_of rest)"
         "\<forall>s. s \<notin> set (symbols_of rest) \<longrightarrow> m s = symbols s"
         "\<forall>k<length rest. Symbol (rest ! k) \<noteq> []
            \<longrightarrow> m (Symbol (rest ! k)) = Some (p' + slots ops (take k rest))"
      by blast
    have "\<forall>k<length (ins # rest). Symbol ((ins # rest) ! k) \<noteq> []
        \<longrightarrow> m (Symbol ((ins # rest) ! k)) = Some (p + slots ops (take k (ins # rest)))"
    proof (intro allI impI)
      fix k assume k: "k < length (ins # rest)" "Symbol ((ins # rest) ! k) \<noteq> []"
      with True obtain k' where k': "k = Suc k'" by (cases k) auto
      with k m(4) show "m (Symbol ((ins # rest) ! k)) = Some (p + slots ops (take k (ins # rest)))"
        by (simp add: slots_Cons p'_def)
    qed
    with m True show ?thesis by (simp add: symbols_of_Cons Let_def p'_def)
  next
    case False
    with Cons.prems have none: "symbols (Symbol ins) = None"
      by (auto simp add: symbols_of_Cons)
    from Cons.prems False have d: "distinct (symbols_of rest)"
      "dom (symbols(Symbol ins \<mapsto> p)) \<inter> set (symbols_of rest) = {}"
      and notin: "Symbol ins \<notin> set (symbols_of rest)"
      by (auto simp add: symbols_of_Cons)
    from Cons.IH [OF d, of p'] obtain m where
      m: "marshalledOffsets_loop ops (symbols(Symbol ins \<mapsto> p)) p' rest = Inr m"
         "dom m = dom (symbols(Symbol ins \<mapsto> p)) \<union> set (symbols_of rest)"
         "\<forall>s. s \<notin> set (symbols_of rest) \<longrightarrow> m s = (symbols(Symbol ins \<mapsto> p)) s"
         "\<forall>k<length rest. Symbol (rest ! k) \<noteq> []
            \<longrightarrow> m (Symbol (rest ! k)) = Some (p' + slots ops (take k rest))"
      by blast
    from m(3) notin have here: "m (Symbol ins) = Some p" by simp
    have "\<forall>k<length (ins # rest). Symbol ((ins # rest) ! k) \<noteq> []
        \<longrightarrow> m (Symbol ((ins # rest) ! k)) = Some (p + slots ops (take k (ins # rest)))"
    proof (intro allI impI)
      fix k assume k: "k < length (ins # rest)" "Symbol ((ins # rest) ! k) \<noteq> []"
      show "m (Symbol ((ins # rest) ! k)) = Some (p + slots ops (take k (ins # rest)))"
      proof (cases k)
        case 0
        with here show ?thesis by (simp add: slots_def)
      next
        case (Suc k')
        with k m(4) show ?thesis by (simp add: slots_Cons p'_def)
      qed
    qed
    moreover from m(3) have "\<forall>s. s \<notin> set (symbols_of (ins # rest)) \<longrightarrow> m s = symbols s"
      using False by (auto simp add: symbols_of_Cons)
    ultimately show ?thesis using m(1,2) False none
      by (simp add: symbols_of_Cons Let_def p'_def)
  qed
qed

text \<open>
  C4. When a non-empty symbol name tags two instructions, \<open>SymbolOffsets\<close> and
  \<open>marshalledOffsets\<close> both fail, with the duplicate-symbol error of the same name.
  Otherwise both return a table whose keys are the non-empty symbols of the sequence:
  \<open>SymbolOffsets\<close> maps the symbol of instruction \<open>k\<close> to \<open>k\<close>, \<open>marshalledOffsets\<close>
  maps it to the number of slots of the instructions before \<open>k\<close>.
\<close>

theorem symbol_tables:
  "(\<not> distinct (symbols_of insns) \<longrightarrow>
      (\<exists>s. s \<noteq> [] \<and> SymbolOffsets insns = Inl (DuplicateSymbol s)
          \<and> marshalledOffsets ops insns = Inl (DuplicateSymbol s)))
   \<and> (distinct (symbols_of insns) \<longrightarrow>
      (\<exists>m. SymbolOffsets insns = Inr m
          \<and> dom m = set (symbols_of insns)
          \<and> (\<forall>k<length insns. Symbol (insns ! k) \<noteq> [] \<longrightarrow> m (Symbol (insns ! k)) = Some (int k)))
    \<and> (\<exists>m. marshalledOffsets ops insns = Inr m
          \<and> dom m = set (symbols_of insns)
          \<and> (\<forall>k<length insns. Symbol (insns ! k) \<noteq> []
                \<longrightarrow> m (Symbol (insns ! k)) = Some (slots ops (take k insns)))))"
proof (intro conjI impI)
  assume "\<not> distinct (symbols_of insns)"
  then have "\<not> (distinct (symbols_of insns) \<and> dom (Map.empty :: string \<rightharpoonup> int) \<inter> set (symbols_of insns) = {})"
    by simp
  from SymbolOffsets_loop_dup [OF this, of 0] obtain s where
    s: "s \<in> set (symbols_of insns)" "SymbolOffsets insns = Inl (DuplicateSymbol s)"
    by (auto simp add: SymbolOffsets_def)
  from s(1) have "s \<noteq> []" by (simp add: symbols_of_def)
  moreover from s(2) have "marshalledOffsets ops insns = Inl (DuplicateSymbol s)"
    using same_duplicate [of Map.empty Map.empty 0 insns "DuplicateSymbol s" ops 0]
    by (simp add: SymbolOffsets_def marshalledOffsets_def)
  ultimately show "\<exists>s. s \<noteq> [] \<and> SymbolOffsets insns = Inl (DuplicateSymbol s)
          \<and> marshalledOffsets ops insns = Inl (DuplicateSymbol s)"
    using s(2) by blast
next
  assume d: "distinct (symbols_of insns)"
  from SymbolOffsets_loop_ok [OF d, of Map.empty 0]
  show "\<exists>m. SymbolOffsets insns = Inr m
          \<and> dom m = set (symbols_of insns)
          \<and> (\<forall>k<length insns. Symbol (insns ! k) \<noteq> [] \<longrightarrow> m (Symbol (insns ! k)) = Some (int k))"
    by (auto simp add: SymbolOffsets_def)
next
  assume d: "distinct (symbols_of insns)"
  from marshalledOffsets_loop_ok [OF d, of Map.empty ops 0]
  show "\<exists>m. marshalledOffsets ops insns = Inr m
          \<and> dom m = set (symbols_of insns)
          \<and> (\<forall>k<length insns. Symbol (insns ! k) \<noteq> []
                \<longrightarrow> m (Symbol (insns ! k)) = Some (slots ops (take k insns)))"
    by (auto simp add: marshalledOffsets_def)
qed

theorem symbol_tables_witness:
  "\<not> distinct (symbols_of dup_prog)
   \<and> (\<exists>s. s \<noteq> [] \<and> SymbolOffsets dup_prog = Inl (DuplicateSymbol s)
          \<and> marshalledOffsets ebpf dup_prog = Inl (DuplicateSymbol s))
   \<and> distinct (symbols_of wide_prog)
   \<and> (\<exists>m. SymbolOffsets wide_prog = Inr m \<and> dom m = {''start'', ''L''}
          \<and> m ''start'' = Some 0 \<and> m ''L'' = Some 2)
   \<and> (\<exists>m. marshalledOffsets ebpf wide_prog = Inr m \<and> dom m = {''start'', ''L''}
          \<and> m ''start'' = Some 0 \<and> m ''L'' = Some 3)"
proof -
  have dup: "\<not> distinct (symbols_of dup_prog)"
    by (simp add: symbols_of_def dup_prog_def Mov_ins_def)
  have syms: "symbols_of wide_prog = [''start'', ''L'']"
    by (simp add: symbols_of_def wide_prog_def Mov_ins_def LoadMapValue_ins_def)
  then have ok: "distinct (symbols_of wide_prog)"
    by simp
  have at0: "Symbol (wide_prog ! 0) = ''start''" and at2: "Symbol (wide_prog ! 2) = ''L''"
    by (simp_all add: wide_prog_def Mov_ins_def LoadMapValue_ins_def)
  have s0: "slots ebpf [] = 0"
    by (simp add: slots_def)
  have s2: "slots ebpf (take 2 wide_prog) = 3"
    by (simp add: slots_def wide_prog_def Mov_ins_def LoadMapValue_ins_def ebpf_def)
  from symbol_tables [of dup_prog ebpf] dup
  have 1: "\<exists>s. s \<noteq> [] \<and> SymbolOffsets dup_prog = Inl (DuplicateSymbol s)
          \<and> marshalledOffsets ebpf dup_prog = Inl (DuplicateSymbol s)"
    by blast
  from symbol_tables [of wide_prog ebpf] ok obtain m m' where
    m: "SymbolOffsets wide_prog = Inr m" "dom m = set (symbols_of wide_prog)"
       "\<forall>k<length wide_prog. Symbol (wide_prog ! k) \<noteq> [] \<longrightarrow> m (Symbol (wide_prog ! k)) = Some (int k)"
    and m': "marshalledOffsets ebpf wide_prog = Inr m'" "dom m' = set (symbols_of wide_prog)"
       "\<forall>k<length wide_prog. Symbol (wide_prog ! k) \<noteq> []
          \<longrightarrow> m' (Symbol (wide_prog ! k)) = Some (slots ebpf (take k wide_prog))"
    by blast
  have len: "length wide_prog = 3"
    by (simp add: wide_prog_def)
  from m(3) [rule_format, of 0] m(3) [rule_format, of 2] len
  have 2: "m ''start'' = Some 0" "m ''L'' = Some 2"
    by (simp_all add: at0 at2)
  from m'(3) [rule_format, of 0] m'(3) [rule_format, of 2] len
  have 3: "m' ''start'' = Some 0" "m' ''L'' = Some 3"
    by (simp_all add: at0 at2 s2 s0)
  from m(1,2) m'(1,2) 2 3 have
    "\<exists>m. SymbolOffsets wide_prog = Inr m \<and> dom m = {''start'', ''L''}
          \<and> m ''start'' = Some 0 \<and> m ''L'' = Some 2"
    "\<exists>m. marshalledOffsets ebpf wide_prog = Inr m \<and> dom m = {''start'', ''L''}
          \<and> m ''start'' = Some 0 \<and> m ''L'' = Some 3"
    by (simp_all add: syms)
  with dup ok 1 show ?thesis by blast
qed

section \<open>Bytes, registers and constants of the codec\<close>

lemma Uint16_PutUint16:
  "PutUint16 bo v = [a, b] \<Longrightarrow> Uint16 bo a b = v"
  by (cases bo; clarsimp simp add: PutUint16_def Uint16_def; rule bit_word_eqI)
     (auto simp add: bit_simps)

lemma Uint32_bits:
  fixes v :: "32 word"
  shows "ucast (ucast v :: 8 word) OR push_bit 8 (ucast (ucast (drop_bit 8 v) :: 8 word))
     OR push_bit 16 (ucast (ucast (drop_bit 16 v) :: 8 word))
     OR push_bit 24 (ucast (ucast (drop_bit 24 v) :: 8 word)) = v"
proof (rule bit_word_eqI)
  fix n assume "n < LENGTH(32)"
  then consider "n < 8" | "8 \<le> n" "n < 16" | "16 \<le> n" "n < 24" | "24 \<le> n" "n < 32"
    by fastforce
  then show "bit (ucast (ucast v :: 8 word) OR push_bit 8 (ucast (ucast (drop_bit 8 v) :: 8 word))
     OR push_bit 16 (ucast (ucast (drop_bit 16 v) :: 8 word))
     OR push_bit 24 (ucast (ucast (drop_bit 24 v) :: 8 word)) :: 32 word) n = bit v n"
    by cases (auto simp add: bit_simps)
qed

lemma Uint32_PutUint32:
  "PutUint32 bo v = [a, b, c, d] \<Longrightarrow> Uint32 bo a b c d = v"
  by (cases bo) (auto simp add: PutUint32_def Uint32_def Uint32_bits)

lemma binary_Read_Write: "binary_Read bo (binary_Write bo bi @ rest) = (Inr bi, rest)"
proof -
  obtain a b where ab: "PutUint16 bo (bi_Offset bi) = [a, b]"
    by (cases bo) (simp_all add: PutUint16_def)
  obtain c d e f where cdef: "PutUint32 bo (bi_Constant bi) = [c, d, e, f]"
    by (cases bo) (simp_all add: PutUint32_def)
  show ?thesis
    by (simp add: binary_Write_def ab cdef Uint16_PutUint16 [OF ab] Uint32_PutUint32 [OF cdef])
qed

lemma length_binary_Write: "length (binary_Write bo bi) = 8"
  by (cases bo) (simp_all add: binary_Write_def PutUint16_def PutUint32_def)

lemma mask4: "(0xF :: 8 word) = mask 4"
  by (simp add: mask_eq_exp_minus_1)

lemma Dst_newBPFRegisters: "Registers_Dst (newBPFRegisters dst src) = dst AND 0xF"
  unfolding Registers_Dst_def newBPFRegisters_def mask4
  by (rule bit_word_eqI) (auto simp add: bit_simps)

lemma Src_newBPFRegisters: "Registers_Src (newBPFRegisters dst src) = src AND 0xF"
  unfolding Registers_Src_def newBPFRegisters_def mask4
  by (rule bit_word_eqI) (auto simp add: bit_simps)

lemma and_0xF: "r < 16 \<Longrightarrow> r AND 0xF = (r :: 8 word)"
  using less_mask_eq [of r 4] by (simp add: mask4)

lemma scast_ucast_in_range:
  fixes c :: "64 word"
  assumes "- (2 ^ 31) \<le> sint c" and "sint c < 2 ^ 31"
  shows "scast (ucast c :: 32 word) = c"
proof (rule bit_word_eqI)
  fix n assume n: "n < LENGTH(64)"
  from assms have s: "signed_take_bit 31 (sint c) = sint c"
    by (rule signed_take_bit_int_eq_self)
  have hi: "bit c m = bit c 31" if "31 \<le> m" "m < 64" for m
  proof -
    from that have "bit c m = bit (sint c) m" by (simp add: bit_sint_iff)
    also have "\<dots> = bit (signed_take_bit 31 (sint c)) m" by (simp add: s)
    also from that have "\<dots> = bit (sint c) 31" by (simp add: bit_signed_take_bit_iff min_def)
    also have "\<dots> = bit c 31" by (simp add: bit_sint_iff)
    finally show ?thesis .
  qed
  show "bit (scast (ucast c :: 32 word) :: 64 word) n = bit c n"
  proof (cases "n < 32")
    case True
    then show ?thesis by (simp add: bit_word_scast_iff bit_word_ucast_iff)
  next
    case False
    with n hi [of n] show ?thesis by (simp add: bit_word_scast_iff bit_word_ucast_iff)
  qed
qed

lemma dword_reassemble:
  fixes c :: "64 word"
  shows "push_bit 32 (ucast (ucast (signed_drop_bit 32 c) :: 32 word)) OR ucast (ucast c :: 32 word) = c"
proof (rule bit_word_eqI)
  fix n assume n: "n < LENGTH(64)"
  show "bit (push_bit 32 (ucast (ucast (signed_drop_bit 32 c) :: 32 word)) OR ucast (ucast c :: 32 word) :: 64 word) n = bit c n"
  proof (cases "n < 32")
    case True
    then show ?thesis by (auto simp add: bit_simps)
  next
    case False
    with n have "n - 32 < 32" "32 + (n - 32) = n" "n - 32 + 32 = n" by simp_all
    with False n show ?thesis by (auto simp add: bit_simps)
  qed
qed

lemma ucast_8_16_eq_0: "(ucast (a :: 8 word) :: 16 word) = 0 \<longleftrightarrow> a = 0"
proof
  assume z: "(ucast a :: 16 word) = 0"
  have "a = ucast (ucast a :: 16 word)"
    by (rule bit_word_eqI) (auto simp add: bit_simps)
  with z show "a = 0" by simp
qed simp

lemma push_ucast_8_16_eq_0: "push_bit 8 (ucast (b :: 8 word) :: 16 word) = 0 \<longleftrightarrow> b = 0"
proof
  assume z: "push_bit 8 (ucast b :: 16 word) = 0"
  have "b = ucast (drop_bit 8 (push_bit 8 (ucast b :: 16 word)))"
    by (rule bit_word_eqI) (auto simp add: bit_simps)
  with z show "b = 0" by simp
qed simp

lemma Uint16_eq_0: "Uint16 bo a b = 0 \<longleftrightarrow> a = 0 \<and> b = 0"
  by (cases bo) (auto simp add: Uint16_def or_eq_0_iff ucast_8_16_eq_0 push_ucast_8_16_eq_0)

section \<open>Claims on the instruction codec\<close>

lemma binary_Read_short: "length r < 8 \<Longrightarrow> \<exists>e. binary_Read bo r = (Inl e, [])"
  by (cases "(bo, r)" rule: binary_Read.cases) simp_all

lemma binary_Read_short_nonempty:
  "length r < 8 \<Longrightarrow> r \<noteq> [] \<Longrightarrow> binary_Read bo r = (Inl ErrUnexpectedEOF, [])"
  by (cases "(bo, r)" rule: binary_Read.cases) simp_all

lemma Marshal_single:
  assumes "OpCode ins \<noteq> InvalidOpCode ops" "\<not> isDWordLoad ops (OpCode ins)"
  shows "Instruction_Marshal ops ins w bo =
    (w @ binary_Write bo \<lparr> bi_OpCode = OpCode ins,
                     bi_Registers = newBPFRegisters (Dst ins) (Src ins),
                     bi_Offset = Offset ins,
                     bi_Constant = ucast (Constant ins) \<rparr>, Inr 8)"
  using assms by (simp add: Instruction_Marshal_def Let_def InstructionSize_def)

lemma Marshal_double:
  assumes "OpCode ins \<noteq> InvalidOpCode ops" "isDWordLoad ops (OpCode ins)"
  shows "Instruction_Marshal ops ins w bo =
    (w @ binary_Write bo \<lparr> bi_OpCode = OpCode ins,
                     bi_Registers = newBPFRegisters (Dst ins) (Src ins),
                     bi_Offset = Offset ins,
                     bi_Constant = ucast (Constant ins) \<rparr>
       @ binary_Write bo \<lparr> bi_OpCode = 0, bi_Registers = 0, bi_Offset = 0,
                           bi_Constant = ucast (signed_drop_bit 32 (Constant ins)) \<rparr>, Inr 16)"
  using assms by (simp add: Instruction_Marshal_def Let_def InstructionSize_def)

lemma split_hi: "(ucast (signed_drop_bit 32 (0x100000001 :: 64 word)) :: 32 word) = 1"
  by (rule bit_word_eqI) (auto simp add: bit_simps bit_numeral_iff)

text \<open>
  C1, as the code has it. Take an instruction whose opcode is not the invalid opcode,
  whose registers are below 16 and whose constant, unless the opcode is a double-wide
  load, lies in the signed 32-bit range. Encoding it appends 8 bytes (16 for a
  double-wide load) to the sink and reports that count; decoding these bytes under the
  same byte order, followed by any further bytes \<open>rest\<close>, reports the same count, leaves
  \<open>rest\<close> in the reader and restores opcode, registers, offset and constant.
  \<open>Reference\<close> and \<open>Symbol\<close> are not encoded: the decoded instruction keeps those of
  the receiver \<open>rcv\<close> it is decoded into.
\<close>

theorem Marshal_Unmarshal_roundtrip:
  assumes valid: "OpCode ins \<noteq> InvalidOpCode ops"
    and dst: "Dst ins < 16" and src: "Src ins < 16"
    and const: "isDWordLoad ops (OpCode ins)
        \<or> (- (2 ^ 31) \<le> sint (Constant ins) \<and> sint (Constant ins) < 2 ^ 31)"
  shows "\<exists>enc n. Instruction_Marshal ops ins w bo = (w @ enc, Inr n)
      \<and> n = (if isDWordLoad ops (OpCode ins) then 16 else 8)
      \<and> length enc = unat n
      \<and> Instruction_Unmarshal ops rcv (enc @ rest) bo
          = (ins\<lparr>Reference := Reference rcv, Symbol := Symbol rcv\<rparr>, rest, Inr n)"
proof (cases "isDWordLoad ops (OpCode ins)")
  case True
  define bi where "bi = \<lparr> bi_OpCode = OpCode ins,
                     bi_Registers = newBPFRegisters (Dst ins) (Src ins),
                     bi_Offset = Offset ins,
                     bi_Constant = (ucast (Constant ins) :: 32 word) \<rparr>"
  define bi2 where "bi2 = \<lparr> bi_OpCode = 0, bi_Registers = 0, bi_Offset = 0,
            bi_Constant = (ucast (signed_drop_bit 32 (Constant ins)) :: 32 word) \<rparr>"
  have m: "Instruction_Marshal ops ins w bo = (w @ (binary_Write bo bi @ binary_Write bo bi2), Inr 16)"
    using Marshal_double [OF valid True] by (simp add: bi_def bi2_def)
  have r1: "binary_Read bo ((binary_Write bo bi @ binary_Write bo bi2) @ rest)
      = (Inr bi, binary_Write bo bi2 @ rest)"
    using binary_Read_Write [of bo bi "binary_Write bo bi2 @ rest"] by simp
  have r2: "binary_Read bo (binary_Write bo bi2 @ rest) = (Inr bi2, rest)"
    by (rule binary_Read_Write)
  have u: "Instruction_Unmarshal ops rcv ((binary_Write bo bi @ binary_Write bo bi2) @ rest) bo
      = (ins\<lparr>Reference := Reference rcv, Symbol := Symbol rcv\<rparr>, rest, Inr 16)"
    unfolding Instruction_Unmarshal_def r1
    using True dst src
    apply (simp add: r2 Let_def)
    apply (simp add: bi_def bi2_def InstructionSize_def Dst_newBPFRegisters
        Src_newBPFRegisters and_0xF dword_reassemble)
    done
  from m u True show ?thesis
    by (simp add: length_binary_Write)
next
  case False
  define bi where "bi = \<lparr> bi_OpCode = OpCode ins,
                     bi_Registers = newBPFRegisters (Dst ins) (Src ins),
                     bi_Offset = Offset ins,
                     bi_Constant = (ucast (Constant ins) :: 32 word) \<rparr>"
  from False const have rng: "- (2 ^ 31) \<le> sint (Constant ins)" "sint (Constant ins) < 2 ^ 31"
    by simp_all
  have m: "Instruction_Marshal ops ins w bo = (w @ binary_Write bo bi, Inr 8)"
    using Marshal_single [OF valid False] by (simp add: bi_def)
  have r1: "binary_Read bo (binary_Write bo bi @ rest) = (Inr bi, rest)"
    by (rule binary_Read_Write)
  have u: "Instruction_Unmarshal ops rcv (binary_Write bo bi @ rest) bo
      = (ins\<lparr>Reference := Reference rcv, Symbol := Symbol rcv\<rparr>, rest, Inr 8)"
    unfolding Instruction_Unmarshal_def r1
    using False dst src
    by (simp add: Let_def bi_def InstructionSize_def Dst_newBPFRegisters
        Src_newBPFRegisters and_0xF scast_ucast_in_range [OF rng])
  from m u False show ?thesis
    by (simp add: length_binary_Write)
qed


text \<open>
  At the double-wide load of \<open>0x1_0000_0001\<close>: the low slot and the high slot both
  carry the constant 1, and decoding gives the instruction back.
\<close>

theorem Marshal_Unmarshal_roundtrip_witness:
  "OpCode LoadImm_ins \<noteq> InvalidOpCode ebpf \<and> Dst LoadImm_ins < 16 \<and> Src LoadImm_ins < 16
   \<and> isDWordLoad ebpf (OpCode LoadImm_ins)
   \<and> Instruction_Marshal ebpf LoadImm_ins [] LittleEndian
        = ([0x18, 0x01, 0, 0, 1, 0, 0, 0, 0, 0, 0, 0, 1, 0, 0, 0], Inr 16)
   \<and> Instruction_Unmarshal ebpf Mov_ins [0x18, 0x01, 0, 0, 1, 0, 0, 0, 0, 0, 0, 0, 1, 0, 0, 0]
        LittleEndian = (LoadImm_ins, [], Inr 16)"
proof -
  have h: "OpCode LoadImm_ins \<noteq> InvalidOpCode ebpf" "Dst LoadImm_ins < 16" "Src LoadImm_ins < 16"
    and dw: "isDWordLoad ebpf (OpCode LoadImm_ins)"
    by (simp_all add: LoadImm_ins_def ebpf_def)
  have m: "Instruction_Marshal ebpf LoadImm_ins [] LittleEndian
        = ([0x18, 0x01, 0, 0, 1, 0, 0, 0, 0, 0, 0, 0, 1, 0, 0, 0], Inr 16)"
    by (simp add: LoadImm_ins_def ebpf_def Instruction_Marshal_def binary_Write_def
        PutUint16_def PutUint32_def newBPFRegisters_def InstructionSize_def Let_def split_hi)
  have same: "LoadImm_ins\<lparr>Reference := Reference Mov_ins, Symbol := Symbol Mov_ins\<rparr> = LoadImm_ins"
    by (simp add: LoadImm_ins_def Mov_ins_def)
  from Marshal_Unmarshal_roundtrip [OF h, of "[]" LittleEndian Mov_ins "[]"] dw
  have "Instruction_Unmarshal ebpf Mov_ins [0x18, 0x01, 0, 0, 1, 0, 0, 0, 0, 0, 0, 0, 1, 0, 0, 0]
        LittleEndian = (LoadImm_ins, [], Inr 16)"
    by (simp add: m same)
  with h dw m show ?thesis by simp
qed

text \<open>
  C1 as stated fails. The move below has a valid single-slot opcode; only the low 32
  bits of its constant \<open>0x1_0000_0001\<close> (line 72) and the low four bits of its register
  17 (line 436) are written, its symbol is not written at all, and decoding the eight
  bytes into a fresh instruction gives constant 1, register 1 and no symbol.
\<close>

theorem Marshal_Unmarshal_loses_fields:
  "OpCode Mov_odd_ins \<noteq> InvalidOpCode ebpf
   \<and> Instruction_Marshal ebpf Mov_odd_ins [] LittleEndian = ([0xb7, 0x01, 0, 0, 1, 0, 0, 0], Inr 8)
   \<and> Instruction_Unmarshal ebpf zero_ins [0xb7, 0x01, 0, 0, 1, 0, 0, 0] LittleEndian
        = (\<lparr> OpCode = 0xb7, Dst = 1, Src = 0, Offset = 0, Constant = 1,
              Reference = [], Symbol = [] \<rparr>, [], Inr 8)
   \<and> Constant Mov_odd_ins = 0x100000001 \<and> Dst Mov_odd_ins = 0x11 \<and> Symbol Mov_odd_ins = ''L''"
  by (simp add: Mov_odd_ins_def zero_ins_def ebpf_def Instruction_Marshal_def
      Instruction_Unmarshal_def binary_Write_def PutUint16_def PutUint32_def Uint16_def Uint32_def
      newBPFRegisters_def Registers_Dst_def Registers_Src_def InstructionSize_def Let_def)

text \<open>
  C7. The first slot \<open>b0 \<dots> b7\<close> has a double-wide-load opcode and a second slot
  \<open>c0 \<dots> c7\<close> follows. If the second slot's opcode \<open>c0\<close>, its offset or its register
  byte \<open>c1\<close> is not zero, decoding fails with the non-zero-fields error and the receiver
  holds the fields of the first slot only. If all three are zero, decoding reports 16
  bytes and the constant is the second slot's constant, as unsigned 32 bits, shifted
  left by 32, or-ed with the first slot's constant as unsigned 32 bits.
\<close>

theorem Unmarshal_second_slot:
  assumes dw: "isDWordLoad ops b0"
  shows "(c0 \<noteq> 0 \<or> Uint16 bo c2 c3 \<noteq> 0 \<or> c1 \<noteq> 0 \<longrightarrow>
      Instruction_Unmarshal ops rcv
        (b0 # b1 # b2 # b3 # b4 # b5 # b6 # b7 # c0 # c1 # c2 # c3 # c4 # c5 # c6 # c7 # rest) bo
      = (rcv\<lparr> OpCode := b0, Dst := Registers_Dst b1, Src := Registers_Src b1,
               Offset := Uint16 bo b2 b3, Constant := scast (Uint32 bo b4 b5 b6 b7) \<rparr>,
         rest, Inl NonZeroFields))
   \<and> (c0 = 0 \<and> Uint16 bo c2 c3 = 0 \<and> c1 = 0 \<longrightarrow>
      Instruction_Unmarshal ops rcv
        (b0 # b1 # b2 # b3 # b4 # b5 # b6 # b7 # c0 # c1 # c2 # c3 # c4 # c5 # c6 # c7 # rest) bo
      = (rcv\<lparr> OpCode := b0, Dst := Registers_Dst b1, Src := Registers_Src b1,
               Offset := Uint16 bo b2 b3,
               Constant := push_bit 32 (ucast (Uint32 bo c4 c5 c6 c7))
                           OR ucast (Uint32 bo b4 b5 b6 b7) \<rparr>,
         rest, Inr 16))"
  using dw by (simp add: Instruction_Unmarshal_def Let_def InstructionSize_def)

theorem Unmarshal_second_slot_witness:
  "isDWordLoad ebpf 0x18
   \<and> Instruction_Unmarshal ebpf Mov_ins
        [0x18, 0x01, 0, 0, 1, 0, 0, 0, 0, 0x10, 0, 0, 1, 0, 0, 0] LittleEndian
      = (Mov_ins\<lparr> OpCode := 0x18, Dst := 1, Constant := 1 \<rparr>, [], Inl NonZeroFields)
   \<and> Instruction_Unmarshal ebpf Mov_ins
        [0x18, 0x01, 0, 0, 1, 0, 0, 0, 0, 0, 0, 0, 1, 0, 0, 0] LittleEndian
      = (Mov_ins\<lparr> OpCode := 0x18, Dst := 1, Constant := 0x100000001 \<rparr>, [], Inr 16)"
proof -
  have dw: "isDWordLoad ebpf 0x18"
    by (simp add: ebpf_def)
  from Unmarshal_second_slot [OF dw, of 0 LittleEndian 0 0 "0x10" Mov_ins 1 0 0 1 0 0 0 1 0 0 0 "[]"]
       Unmarshal_second_slot [OF dw, of 0 LittleEndian 0 0 0 Mov_ins 1 0 0 1 0 0 0 1 0 0 0 "[]"] dw
  show ?thesis
    by (simp add: Mov_ins_def Registers_Dst_def Registers_Src_def Uint16_def Uint32_def)
qed

text \<open>
  C8. When the first slot has a double-wide-load opcode and fewer than eight bytes
  follow it (none included), decoding fails with the missing-second-half error, which
  is not \<open>io.EOF\<close>. On a reader with no byte at all, decoding fails with \<open>io.EOF\<close> and
  leaves the receiver as it was.
\<close>

theorem Unmarshal_missing_second_half:
  "(isDWordLoad ops b0 \<and> length tail < 8 \<longrightarrow>
      Instruction_Unmarshal ops rcv (b0 # b1 # b2 # b3 # b4 # b5 # b6 # b7 # tail) bo
      = (rcv\<lparr> OpCode := b0, Dst := Registers_Dst b1, Src := Registers_Src b1,
               Offset := Uint16 bo b2 b3, Constant := scast (Uint32 bo b4 b5 b6 b7) \<rparr>,
         [], Inl MissingSecondHalf)
      \<and> MissingSecondHalf \<noteq> EOF)
   \<and> Instruction_Unmarshal ops rcv [] bo = (rcv, [], Inl EOF)"
proof (intro conjI impI)
  assume a: "isDWordLoad ops b0 \<and> length tail < 8"
  then obtain e where e: "binary_Read bo tail = (Inl e, [])"
    using binary_Read_short [of tail bo] by blast
  with a show "Instruction_Unmarshal ops rcv (b0 # b1 # b2 # b3 # b4 # b5 # b6 # b7 # tail) bo
      = (rcv\<lparr> OpCode := b0, Dst := Registers_Dst b1, Src := Registers_Src b1,
               Offset := Uint16 bo b2 b3, Constant := scast (Uint32 bo b4 b5 b6 b7) \<rparr>,
         [], Inl MissingSecondHalf)"
    by (simp add: Instruction_Unmarshal_def Let_def)
qed (simp_all add: Instruction_Unmarshal_def)

theorem Unmarshal_missing_second_half_witness:
  "isDWordLoad ebpf 0x18 \<and> length [0 :: byte, 0, 0, 0] < 8
   \<and> Instruction_Unmarshal ebpf Mov_ins [0x18, 0x01, 0, 0, 1, 0, 0, 0, 0, 0, 0, 0] LittleEndian
      = (Mov_ins\<lparr> OpCode := 0x18, Dst := 1, Constant := 1 \<rparr>, [], Inl MissingSecondHalf)
   \<and> Instruction_Unmarshal ebpf Mov_ins [0x18, 0x01, 0, 0, 1, 0, 0, 0] LittleEndian
      = (Mov_ins\<lparr> OpCode := 0x18, Dst := 1, Constant := 1 \<rparr>, [], Inl MissingSecondHalf)
   \<and> Instruction_Unmarshal ebpf Mov_ins [] LittleEndian = (Mov_ins, [], Inl EOF)"
proof -
  have dw: "isDWordLoad ebpf 0x18"
    by (simp add: ebpf_def)
  from Unmarshal_missing_second_half [of ebpf "0x18" "[0, 0, 0, 0]" Mov_ins 1 0 0 1 0 0 0 LittleEndian]
       Unmarshal_missing_second_half [of ebpf "0x18" "[]" Mov_ins 1 0 0 1 0 0 0 LittleEndian] dw
  show ?thesis
    by (simp add: Mov_ins_def Registers_Dst_def Registers_Src_def Uint16_def Uint32_def)
qed

section \<open>Claims on linking and encoding a sequence\<close>

lemma Marshal_switch_OpCode:
  "Marshal_switch ops offs i num ins = Inr ins' \<Longrightarrow> OpCode ins' = OpCode ins"
  by (auto simp add: Marshal_switch_def split: if_splits option.splits)

lemma Instruction_Marshal_slots:
  "Instruction_Marshal ops ins w bo = (w', Inr n)
   \<Longrightarrow> uint (n div InstructionSize) = slots ops [ins]"
  by (auto simp add: Instruction_Marshal_def Let_def InstructionSize_def slots_def
      split: if_splits)

lemma slots_append: "slots ops (xs @ ys) = slots ops xs + slots ops ys"
  by (simp add: slots_def)

lemma slots_OpCode: "OpCode a = OpCode b \<Longrightarrow> slots ops [a] = slots ops [b]"
  by (simp add: slots_def)

lemma Marshal_loop_append:
  "Marshal_loop ops bo offs i num (xs @ ys) w =
     (case Marshal_loop ops bo offs i num xs w of
        (w', Some e) \<Rightarrow> (w', Some e)
      | (w', None) \<Rightarrow> Marshal_loop ops bo offs (i + length xs) (num + slots ops xs) ys w')"
proof (induction xs arbitrary: i num w)
  case Nil
  show ?case by (simp add: slots_def)
next
  case (Cons ins rest)
  show ?case
  proof (cases "Marshal_switch ops offs i num ins")
    case (Inl e)
    then show ?thesis by simp
  next
    case (Inr ins')
    obtain w1 res where m: "Instruction_Marshal ops ins' w bo = (w1, res)"
      by (cases "Instruction_Marshal ops ins' w bo")
    show ?thesis
    proof (cases res)
      case (Inl e)
      with Inr m show ?thesis by simp
    next
      case r: (Inr n)
      from m r have "uint (n div InstructionSize) = slots ops [ins']"
        by (simp add: Instruction_Marshal_slots)
      also have "\<dots> = slots ops [ins]"
        by (rule slots_OpCode) (rule Marshal_switch_OpCode [OF Inr])
      finally have n: "uint (n div InstructionSize) = slots ops [ins]" .
      have s: "num + slots ops [ins] + slots ops rest = num + slots ops (ins # rest)"
        using slots_append [of ops "[ins]" rest] by simp
      have l: "Suc i + length rest = i + length (ins # rest)"
        by simp
      show ?thesis
        using Inr m r Cons.IH [of "Suc i" "num + slots ops [ins]" w1]
        unfolding s l by (simp add: n)
    qed
  qed
qed


lemma Marshal_at:
  assumes offs: "marshalledOffsets ops insns = Inr offs"
    and k: "k < length insns"
    and pre: "Marshal_loop ops bo offs 0 0 (take k insns) w = (w', None)"
  shows "Instructions_Marshal ops insns w bo =
    Marshal_loop ops bo offs k (slots ops (take k insns)) (insns ! k # drop (Suc k) insns) w'"
proof -
  from k have split: "insns = take k insns @ insns ! k # drop (Suc k) insns"
    by (rule id_take_nth_drop)
  have "Instructions_Marshal ops insns w bo = Marshal_loop ops bo offs 0 0 insns w"
    by (simp add: Instructions_Marshal_def offs)
  also have "\<dots> = Marshal_loop ops bo offs 0 0 (take k insns @ insns ! k # drop (Suc k) insns) w"
    using split by simp
  also have "\<dots> = Marshal_loop ops bo offs k (slots ops (take k insns))
      (insns ! k # drop (Suc k) insns) w'"
    using k by (simp add: Marshal_loop_append pre)
  finally show ?thesis .
qed

lemma Marshal_step:
  assumes sw: "Marshal_switch ops offs k num ins = Inr ins'"
    and valid: "OpCode ins \<noteq> InvalidOpCode ops"
  shows "Marshal_loop ops bo offs k num (ins # rest) w =
    Marshal_loop ops bo offs (Suc k) (num + slots ops [ins]) rest
      (fst (Instruction_Marshal ops ins' w bo))"
proof -
  have op: "OpCode ins' = OpCode ins"
    by (rule Marshal_switch_OpCode [OF sw])
  obtain w1 res where m: "Instruction_Marshal ops ins' w bo = (w1, res)"
    by (cases "Instruction_Marshal ops ins' w bo")
  from m valid op obtain n where res: "res = Inr n"
    by (auto simp add: Instruction_Marshal_def Let_def split: if_splits)
  from m res have "uint (n div InstructionSize) = slots ops [ins']"
    by (simp add: Instruction_Marshal_slots)
  with op have "uint (n div InstructionSize) = slots ops [ins]"
    by (simp add: slots_def)
  with sw m res show ?thesis by simp
qed

lemma RewriteMapPtr_loop_unreferenced:
  "\<forall>ins\<in>set insns. Reference ins \<noteq> symbol
   \<Longrightarrow> RewriteMapPtr_loop ops symbol fd found insns = (insns, Inr found)"
  by (induction insns) simp_all

lemma marshalledOffsets_loop_error:
  "marshalledOffsets_loop ops symbols p insns = Inl e \<Longrightarrow> \<exists>s. e = DuplicateSymbol s"
  by (induction insns arbitrary: symbols p) (auto simp add: Let_def split: if_splits)

lemma Marshal_loop_error:
  "Marshal_loop ops bo offs i num insns w = (w', Some e)
   \<Longrightarrow> (\<exists>j s. e = MissingSymbol j s) \<or> (\<exists>j e'. e = InstructionError j e')"
proof (induction insns arbitrary: i num w)
  case Nil
  then show ?case by simp
next
  case (Cons ins rest)
  show ?case
  proof (cases "Marshal_switch ops offs i num ins")
    case (Inl err)
    with Cons.prems have "e = err" by simp
    with Inl show ?thesis
      by (auto simp add: Marshal_switch_def split: if_splits option.splits)
  next
    case (Inr ins')
    obtain w1 res where m: "Instruction_Marshal ops ins' w bo = (w1, res)"
      by (cases "Instruction_Marshal ops ins' w bo")
    show ?thesis
    proof (cases res)
      case (Inl err)
      with Inr m Cons.prems show ?thesis by auto
    next
      case r: (Inr n)
      with Inr m Cons.prems Cons.IH show ?thesis by simp
    qed
  qed
qed

lemma Marshal_not_unreferenced:
  "\<not> IsUnreferencedSymbol (snd (Instructions_Marshal ops insns w bo))"
proof (cases "marshalledOffsets ops insns")
  case (Inl e)
  then obtain s where "e = DuplicateSymbol s"
    using marshalledOffsets_loop_error [of ops Map.empty 0 insns e]
    by (auto simp add: marshalledOffsets_def)
  with Inl show ?thesis by (simp add: Instructions_Marshal_def)
next
  case (Inr offs)
  obtain w' r where l: "Marshal_loop ops bo offs 0 0 insns w = (w', r)"
    by (cases "Marshal_loop ops bo offs 0 0 insns w")
  show ?thesis
  proof (cases r)
    case None
    with Inr l show ?thesis by (simp add: Instructions_Marshal_def)
  next
    case (Some e)
    with l Marshal_loop_error [of ops bo offs 0 0 insns w w' e]
    have "(\<exists>j s. e = MissingSymbol j s) \<or> (\<exists>j e'. e = InstructionError j e')" by simp
    with Inr l Some show ?thesis by (auto simp add: Instructions_Marshal_def)
  qed
qed

text \<open>
  C2. Let the slot-offset table be computed, let the first \<open>k\<close> instructions be
  encoded without error, leaving the sink \<open>w'\<close>, and let instruction \<open>k\<close> have a valid
  opcode and a reference that the table maps to \<open>target\<close>. The running slot counter
  \<open>num\<close> is then the number of slots of the first \<open>k\<close> instructions. If the instruction
  is a call with constant \<open>- 1\<close>, \<open>Marshal\<close> goes on from instruction \<open>k + 1\<close> with
  the sink that encoding the instruction with constant \<open>target - num - 1\<close> leaves. If it
  is not such a call but a jump-class instruction with offset \<open>- 1\<close>, the same holds
  with the offset set to \<open>target - num - 1\<close> narrowed to 16 bits.
\<close>

theorem Marshal_resolves_references:
  assumes offs: "marshalledOffsets ops insns = Inr absoluteOffsets"
    and k: "k < length insns"
    and pre: "Marshal_loop ops bo absoluteOffsets 0 0 (take k insns) w = (w', None)"
    and tgt: "absoluteOffsets (Reference (insns ! k)) = Some target"
    and valid: "OpCode (insns ! k) \<noteq> InvalidOpCode ops"
  shows "(JumpOp ops (OpCode (insns ! k)) = Call ops \<and> Constant (insns ! k) = - 1 \<longrightarrow>
      Instructions_Marshal ops insns w bo =
        Marshal_loop ops bo absoluteOffsets (Suc k) (slots ops (take (Suc k) insns))
          (drop (Suc k) insns)
          (fst (Instruction_Marshal ops
             ((insns ! k)\<lparr>Constant := word_of_int (target - slots ops (take k insns) - 1)\<rparr>)
             w' bo)))
   \<and> (\<not> (JumpOp ops (OpCode (insns ! k)) = Call ops \<and> Constant (insns ! k) = - 1)
        \<and> Class ops (OpCode (insns ! k)) = JumpClass ops \<and> Offset (insns ! k) = - 1 \<longrightarrow>
      Instructions_Marshal ops insns w bo =
        Marshal_loop ops bo absoluteOffsets (Suc k) (slots ops (take (Suc k) insns))
          (drop (Suc k) insns)
          (fst (Instruction_Marshal ops
             ((insns ! k)\<lparr>Offset := word_of_int (target - slots ops (take k insns) - 1)\<rparr>)
             w' bo)))"
proof -
  from k have "take (Suc k) insns = take k insns @ [insns ! k]"
    by (rule take_Suc_conv_app_nth)
  then have next_num: "slots ops (take (Suc k) insns)
      = slots ops (take k insns) + slots ops [insns ! k]"
    by (simp add: slots_append)
  note at = Marshal_at [OF offs k pre]
  show ?thesis
  proof (intro conjI impI)
    assume "JumpOp ops (OpCode (insns ! k)) = Call ops \<and> Constant (insns ! k) = - 1"
    then have "Marshal_switch ops absoluteOffsets k (slots ops (take k insns)) (insns ! k)
        = Inr ((insns ! k)\<lparr>Constant := word_of_int (target - slots ops (take k insns) - 1)\<rparr>)"
      by (simp add: Marshal_switch_def tgt)
    from Marshal_step [OF this valid] show "Instructions_Marshal ops insns w bo =
        Marshal_loop ops bo absoluteOffsets (Suc k) (slots ops (take (Suc k) insns))
          (drop (Suc k) insns)
          (fst (Instruction_Marshal ops
             ((insns ! k)\<lparr>Constant := word_of_int (target - slots ops (take k insns) - 1)\<rparr>)
             w' bo))"
      by (simp add: at next_num)
  next
    assume "\<not> (JumpOp ops (OpCode (insns ! k)) = Call ops \<and> Constant (insns ! k) = - 1)
        \<and> Class ops (OpCode (insns ! k)) = JumpClass ops \<and> Offset (insns ! k) = - 1"
    then have "Marshal_switch ops absoluteOffsets k (slots ops (take k insns)) (insns ! k)
        = Inr ((insns ! k)\<lparr>Offset := word_of_int (target - slots ops (take k insns) - 1)\<rparr>)"
      by (auto simp add: Marshal_switch_def tgt)
    from Marshal_step [OF this valid] show "Instructions_Marshal ops insns w bo =
        Marshal_loop ops bo absoluteOffsets (Suc k) (slots ops (take (Suc k) insns))
          (drop (Suc k) insns)
          (fst (Instruction_Marshal ops
             ((insns ! k)\<lparr>Offset := word_of_int (target - slots ops (take k insns) - 1)\<rparr>)
             w' bo))"
      by (simp add: at next_num)
  qed
qed

text \<open>
  At \<open>[jump(offset = - 1, ref = L), nop, nop:L]\<close>: the target slot is 2, \<open>num\<close> is 0, the
  jump is encoded with offset \<open>2 - 0 - 1 = 1\<close>. At a call placed after a single-slot
  instruction tagged \<open>f\<close> and a double-wide load: the target slot is 0, \<open>num\<close> is 3, the
  call is encoded with constant \<open>0 - 3 - 1 = - 4\<close>.
\<close>

theorem Marshal_resolves_references_witness:
  "marshalledOffsets ebpf jump_prog = Inr [''L'' \<mapsto> 2]
   \<and> 0 < length jump_prog
   \<and> Marshal_loop ebpf LittleEndian [''L'' \<mapsto> 2] 0 0 (take 0 jump_prog) [] = ([], None)
   \<and> [''L'' \<mapsto> 2] (Reference (jump_prog ! 0)) = Some 2
   \<and> OpCode (jump_prog ! 0) \<noteq> InvalidOpCode ebpf
   \<and> \<not> (JumpOp ebpf (OpCode (jump_prog ! 0)) = Call ebpf \<and> Constant (jump_prog ! 0) = - 1)
   \<and> Class ebpf (OpCode (jump_prog ! 0)) = JumpClass ebpf \<and> Offset (jump_prog ! 0) = - 1
   \<and> (jump_prog ! 0)\<lparr>Offset := word_of_int (2 - slots ebpf (take 0 jump_prog) - 1)\<rparr>
       = Ja_ins\<lparr>Offset := 1\<rparr>
   \<and> Instructions_Marshal ebpf jump_prog [] LittleEndian
       = ([0x05, 0, 1, 0, 0, 0, 0, 0,
           0xb7, 0, 0, 0, 0, 0, 0, 0,
           0xb7, 0, 0, 0, 0, 0, 0, 0], None)
   \<and> marshalledOffsets ebpf call_prog = Inr [''f'' \<mapsto> 0]
   \<and> 2 < length call_prog
   \<and> Marshal_loop ebpf LittleEndian [''f'' \<mapsto> 0] 0 0 (take 2 call_prog) []
       = ([0xb7, 0, 0, 0, 0, 0, 0, 0,
           0x18, 0x01, 0, 0, 1, 0, 0, 0,
           0, 0, 0, 0, 1, 0, 0, 0], None)
   \<and> [''f'' \<mapsto> 0] (Reference (call_prog ! 2)) = Some 0
   \<and> OpCode (call_prog ! 2) \<noteq> InvalidOpCode ebpf
   \<and> JumpOp ebpf (OpCode (call_prog ! 2)) = Call ebpf \<and> Constant (call_prog ! 2) = - 1
   \<and> (call_prog ! 2)\<lparr>Constant := word_of_int (0 - slots ebpf (take 2 call_prog) - 1)\<rparr>
       = Call_ins\<lparr>Constant := - 4\<rparr>
   \<and> Instructions_Marshal ebpf call_prog [] LittleEndian
       = ([0xb7, 0, 0, 0, 0, 0, 0, 0,
           0x18, 0x01, 0, 0, 1, 0, 0, 0,
           0, 0, 0, 0, 1, 0, 0, 0,
           0x85, 0x10, 0, 0, 0xfc, 0xff, 0xff, 0xff], None)"
proof -
  note defs = jump_prog_def call_prog_def Ja_ins_def Call_ins_def Mov_ins_def LoadImm_ins_def
    ebpf_def
  note enc = Marshal_switch_def Instruction_Marshal_def binary_Write_def PutUint16_def
    PutUint32_def newBPFRegisters_def InstructionSize_def Let_def split_hi
  have offs: "marshalledOffsets ebpf jump_prog = Inr [''L'' \<mapsto> 2]"
    by (simp add: marshalledOffsets_def marshalledInstructions_def Let_def defs)
  have k: "0 < length jump_prog"
    by (simp add: jump_prog_def)
  have pre: "Marshal_loop ebpf LittleEndian [''L'' \<mapsto> 2] 0 0 (take 0 jump_prog) [] = ([], None)"
    by simp
  have tgt: "[''L'' \<mapsto> 2] (Reference (jump_prog ! 0)) = Some 2"
    by (simp add: defs)
  have valid: "OpCode (jump_prog ! 0) \<noteq> InvalidOpCode ebpf"
    by (simp add: defs)
  have branch: "\<not> (JumpOp ebpf (OpCode (jump_prog ! 0)) = Call ebpf \<and> Constant (jump_prog ! 0) = - 1)
      \<and> Class ebpf (OpCode (jump_prog ! 0)) = JumpClass ebpf \<and> Offset (jump_prog ! 0) = - 1"
    by (simp add: defs)
  have patched: "(jump_prog ! 0)\<lparr>Offset := word_of_int (2 - slots ebpf (take 0 jump_prog) - 1)\<rparr>
       = Ja_ins\<lparr>Offset := 1\<rparr>"
    by (simp add: jump_prog_def slots_def)
  have rest: "Marshal_loop ebpf LittleEndian [''L'' \<mapsto> 2] (Suc 0) (slots ebpf (take (Suc 0) jump_prog))
          (drop (Suc 0) jump_prog)
          (fst (Instruction_Marshal ebpf (Ja_ins\<lparr>Offset := 1\<rparr>) [] LittleEndian))
       = ([0x05, 0, 1, 0, 0, 0, 0, 0,
           0xb7, 0, 0, 0, 0, 0, 0, 0,
           0xb7, 0, 0, 0, 0, 0, 0, 0], None)"
    by (simp add: defs slots_def enc)
  from Marshal_resolves_references [OF offs k pre tgt valid] branch
  have jump: "Instructions_Marshal ebpf jump_prog [] LittleEndian
       = ([0x05, 0, 1, 0, 0, 0, 0, 0,
           0xb7, 0, 0, 0, 0, 0, 0, 0,
           0xb7, 0, 0, 0, 0, 0, 0, 0], None)"
    unfolding patched rest by blast
  have offs': "marshalledOffsets ebpf call_prog = Inr [''f'' \<mapsto> 0]"
    by (simp add: marshalledOffsets_def marshalledInstructions_def Let_def defs)
  have k': "2 < length call_prog"
    by (simp add: call_prog_def)
  have pre': "Marshal_loop ebpf LittleEndian [''f'' \<mapsto> 0] 0 0 (take 2 call_prog) []
       = ([0xb7, 0, 0, 0, 0, 0, 0, 0,
           0x18, 0x01, 0, 0, 1, 0, 0, 0,
           0, 0, 0, 0, 1, 0, 0, 0], None)"
    by (simp add: defs enc)
  have tgt': "[''f'' \<mapsto> 0] (Reference (call_prog ! 2)) = Some 0"
    by (simp add: defs)
  have valid': "OpCode (call_prog ! 2) \<noteq> InvalidOpCode ebpf"
    by (simp add: defs)
  have call: "JumpOp ebpf (OpCode (call_prog ! 2)) = Call ebpf \<and> Constant (call_prog ! 2) = - 1"
    by (simp add: defs)
  have patched': "(call_prog ! 2)\<lparr>Constant := word_of_int (0 - slots ebpf (take 2 call_prog) - 1)\<rparr>
       = Call_ins\<lparr>Constant := - 4\<rparr>"
    by (simp add: defs slots_def)
  have rest': "Marshal_loop ebpf LittleEndian [''f'' \<mapsto> 0] (Suc 2) (slots ebpf (take (Suc 2) call_prog))
          (drop (Suc 2) call_prog)
          (fst (Instruction_Marshal ebpf (Call_ins\<lparr>Constant := - 4\<rparr>)
             [0xb7, 0, 0, 0, 0, 0, 0, 0,
              0x18, 0x01, 0, 0, 1, 0, 0, 0,
              0, 0, 0, 0, 1, 0, 0, 0] LittleEndian))
       = ([0xb7, 0, 0, 0, 0, 0, 0, 0,
           0x18, 0x01, 0, 0, 1, 0, 0, 0,
           0, 0, 0, 0, 1, 0, 0, 0,
           0x85, 0x10, 0, 0, 0xfc, 0xff, 0xff, 0xff], None)"
    by (simp add: defs slots_def enc)
  from Marshal_resolves_references [OF offs' k' pre' tgt' valid'] call
  have "Instructions_Marshal ebpf call_prog [] LittleEndian
       = ([0xb7, 0, 0, 0, 0, 0, 0, 0,
           0x18, 0x01, 0, 0, 1, 0, 0, 0,
           0, 0, 0, 0, 1, 0, 0, 0,
           0x85, 0x10, 0, 0, 0xfc, 0xff, 0xff, 0xff], None)"
    unfolding patched' rest' by blast
  with offs k pre tgt valid branch patched jump offs' k' pre' tgt' valid' call patched'
  show ?thesis by blast
qed

text \<open>
  C3, on the code. The guard of line 397 asks for a call with constant \<open>- 1\<close> and does
  not look at \<open>src\<close>. The call below has \<open>src = 0\<close>, which is not the call
  pseudo-register, and is rewritten all the same: its constant is encoded as
  \<open>2 - 0 - 1 = 1\<close> instead of \<open>- 1\<close>, and without a symbol \<open>f\<close> in the program
  \<open>Marshal\<close> fails on it.
\<close>

theorem Marshal_rewrites_call_without_PseudoCall:
  "Src HelperCall_ins \<noteq> PseudoCall ebpf
   \<and> Constant HelperCall_ins = - 1
   \<and> Marshal_switch ebpf [''f'' \<mapsto> 2] 0 0 HelperCall_ins = Inr (HelperCall_ins\<lparr>Constant := 1\<rparr>)
   \<and> Instructions_Marshal ebpf helper_prog [] LittleEndian
       = ([0x85, 0, 0, 0, 1, 0, 0, 0,
           0xb7, 0, 0, 0, 0, 0, 0, 0,
           0xb7, 0, 0, 0, 0, 0, 0, 0], None)
   \<and> Instructions_Marshal ebpf [HelperCall_ins] [] LittleEndian = ([], Some (MissingSymbol 0 ''f''))"
    by (simp add: Instructions_Marshal_def marshalledOffsets_def marshalledInstructions_def
        helper_prog_def HelperCall_ins_def Mov_ins_def slots_def ebpf_def Marshal_switch_def
        Instruction_Marshal_def binary_Write_def PutUint16_def PutUint32_def newBPFRegisters_def
        InstructionSize_def Let_def)

text \<open>
  C6, as the code has it. For a non-empty symbol that no instruction refers to,
  \<open>Instructions.RewriteMapPtr\<close> leaves the sequence as it is and returns the
  unreferenced-symbol error, which satisfies the predicate. When the slot-offset table
  is computed, the first \<open>k\<close> instructions are encoded without error and instruction
  \<open>k\<close> is a pending call or branch whose reference is not in the table, \<open>Marshal\<close>
  returns the missing-symbol error that carries \<open>k\<close> and the reference. No error that
  \<open>Marshal\<close> returns satisfies the predicate.
\<close>

theorem unreferenced_and_missing:
  "(symbol \<noteq> [] \<and> (\<forall>ins\<in>set insns. Reference ins \<noteq> symbol) \<longrightarrow>
      Instructions_RewriteMapPtr ops insns symbol fd = (insns, Some (unreferencedSymbolError symbol))
      \<and> IsUnreferencedSymbol (snd (Instructions_RewriteMapPtr ops insns symbol fd)))
   \<and> (marshalledOffsets ops insns = Inr absoluteOffsets
        \<and> k < length insns
        \<and> Marshal_loop ops bo absoluteOffsets 0 0 (take k insns) w = (w', None)
        \<and> (JumpOp ops (OpCode (insns ! k)) = Call ops \<and> Constant (insns ! k) = - 1
            \<or> Class ops (OpCode (insns ! k)) = JumpClass ops \<and> Offset (insns ! k) = - 1)
        \<and> absoluteOffsets (Reference (insns ! k)) = None \<longrightarrow>
      Instructions_Marshal ops insns w bo = (w', Some (MissingSymbol k (Reference (insns ! k)))))
   \<and> \<not> IsUnreferencedSymbol (snd (Instructions_Marshal ops insns w bo))"
proof (intro conjI impI)
  assume a: "symbol \<noteq> [] \<and> (\<forall>ins\<in>set insns. Reference ins \<noteq> symbol)"
  then show r: "Instructions_RewriteMapPtr ops insns symbol fd
      = (insns, Some (unreferencedSymbolError symbol))"
    by (simp add: Instructions_RewriteMapPtr_def RewriteMapPtr_loop_unreferenced)
  show "IsUnreferencedSymbol (snd (Instructions_RewriteMapPtr ops insns symbol fd))"
    by (simp add: r)
next
  assume a: "marshalledOffsets ops insns = Inr absoluteOffsets
        \<and> k < length insns
        \<and> Marshal_loop ops bo absoluteOffsets 0 0 (take k insns) w = (w', None)
        \<and> (JumpOp ops (OpCode (insns ! k)) = Call ops \<and> Constant (insns ! k) = - 1
            \<or> Class ops (OpCode (insns ! k)) = JumpClass ops \<and> Offset (insns ! k) = - 1)
        \<and> absoluteOffsets (Reference (insns ! k)) = None"
  then have sw: "Marshal_switch ops absoluteOffsets k (slots ops (take k insns)) (insns ! k)
      = Inl (MissingSymbol k (Reference (insns ! k)))"
    by (auto simp add: Marshal_switch_def)
  from a have "Instructions_Marshal ops insns w bo =
    Marshal_loop ops bo absoluteOffsets k (slots ops (take k insns))
      (insns ! k # drop (Suc k) insns) w'"
    by (intro Marshal_at) simp_all
  with sw show "Instructions_Marshal ops insns w bo
      = (w', Some (MissingSymbol k (Reference (insns ! k))))"
    by simp
next
  show "\<not> IsUnreferencedSymbol (snd (Instructions_Marshal ops insns w bo))"
    by (rule Marshal_not_unreferenced)
qed

theorem unreferenced_and_missing_witness:
  "''other'' \<noteq> [] \<and> Reference LoadMapValue_ins \<noteq> ''other'' \<and> Reference Mov_ins \<noteq> ''other''
   \<and> Instructions_RewriteMapPtr ebpf [LoadMapValue_ins, Mov_ins] ''other'' 7
       = ([LoadMapValue_ins, Mov_ins], Some (unreferencedSymbolError ''other''))
   \<and> IsUnreferencedSymbol (snd (Instructions_RewriteMapPtr ebpf [LoadMapValue_ins, Mov_ins] ''other'' 7))
   \<and> marshalledOffsets ebpf [Mov_ins, Ja_ins] = Inr Map.empty
   \<and> 1 < length [Mov_ins, Ja_ins]
   \<and> Marshal_loop ebpf LittleEndian Map.empty 0 0 (take 1 [Mov_ins, Ja_ins]) []
       = ([0xb7, 0, 0, 0, 0, 0, 0, 0], None)
   \<and> Class ebpf (OpCode ([Mov_ins, Ja_ins] ! 1)) = JumpClass ebpf
   \<and> Offset ([Mov_ins, Ja_ins] ! 1) = - 1
   \<and> Reference ([Mov_ins, Ja_ins] ! 1) = ''L''
   \<and> Instructions_Marshal ebpf [Mov_ins, Ja_ins] [] LittleEndian
       = ([0xb7, 0, 0, 0, 0, 0, 0, 0], Some (MissingSymbol 1 ''L''))
   \<and> \<not> IsUnreferencedSymbol (snd (Instructions_Marshal ebpf [Mov_ins, Ja_ins] [] LittleEndian))"
proof -
  note defs = Ja_ins_def Mov_ins_def LoadMapValue_ins_def ebpf_def
  note enc = Marshal_switch_def Instruction_Marshal_def binary_Write_def PutUint16_def
    PutUint32_def newBPFRegisters_def InstructionSize_def Let_def
  have refs: "''other'' \<noteq> []" "Reference LoadMapValue_ins \<noteq> ''other''"
    "Reference Mov_ins \<noteq> ''other''"
    by (simp_all add: defs)
  then have a: "''other'' \<noteq> [] \<and> (\<forall>ins\<in>set [LoadMapValue_ins, Mov_ins]. Reference ins \<noteq> ''other'')"
    by simp
  have offs: "marshalledOffsets ebpf [Mov_ins, Ja_ins] = Inr Map.empty"
    by (simp add: marshalledOffsets_def marshalledInstructions_def Let_def defs)
  have k: "1 < length [Mov_ins, Ja_ins]"
    by simp
  have pre: "Marshal_loop ebpf LittleEndian Map.empty 0 0 (take 1 [Mov_ins, Ja_ins]) []
       = ([0xb7, 0, 0, 0, 0, 0, 0, 0], None)"
    by (simp add: defs enc)
  have pending: "Class ebpf (OpCode ([Mov_ins, Ja_ins] ! 1)) = JumpClass ebpf"
    "Offset ([Mov_ins, Ja_ins] ! 1) = - 1" "Reference ([Mov_ins, Ja_ins] ! 1) = ''L''"
    by (simp_all add: defs)
  note inst1 = unreferenced_and_missing [of "''other''" "[LoadMapValue_ins, Mov_ins]" ebpf 7]
  note inst2 = unreferenced_and_missing [of _ "[Mov_ins, Ja_ins]" ebpf _ Map.empty 1
      LittleEndian "[]" "[0xb7, 0, 0, 0, 0, 0, 0, 0]"]
  from inst1 a have 1: "Instructions_RewriteMapPtr ebpf [LoadMapValue_ins, Mov_ins] ''other'' 7
       = ([LoadMapValue_ins, Mov_ins], Some (unreferencedSymbolError ''other''))"
    "IsUnreferencedSymbol (snd (Instructions_RewriteMapPtr ebpf [LoadMapValue_ins, Mov_ins] ''other'' 7))"
    by blast+
  from inst2 offs k pre pending have 2: "Instructions_Marshal ebpf [Mov_ins, Ja_ins] [] LittleEndian
       = ([0xb7, 0, 0, 0, 0, 0, 0, 0], Some (MissingSymbol 1 ''L''))"
    by simp
  from inst2 have 3: "\<not> IsUnreferencedSymbol (snd (Instructions_Marshal ebpf [Mov_ins, Ja_ins] [] LittleEndian))"
    by blast
  from refs 1 offs k pre pending 2 3 show ?thesis by blast
qed

text \<open>
  C6 as stated fails. The second instruction is a pending jump to \<open>L\<close>, which no
  instruction defines, but the first has the invalid opcode: \<open>Marshal\<close> stops there and
  returns the invalid-opcode error of instruction 0, which names no missing symbol.
\<close>

theorem Marshal_earlier_error_first:
  "Class ebpf (OpCode Ja_ins) = JumpClass ebpf \<and> Offset Ja_ins = - 1 \<and> Reference Ja_ins = ''L''
   \<and> marshalledOffsets ebpf [Invalid_ins, Ja_ins] = Inr Map.empty
   \<and> Instructions_Marshal ebpf [Invalid_ins, Ja_ins] [] LittleEndian
       = ([], Some (InstructionError 0 InvalidOpcodeError))"
    by (simp add: Instructions_Marshal_def marshalledOffsets_def marshalledInstructions_def
        Invalid_ins_def Ja_ins_def Mov_ins_def ebpf_def Marshal_switch_def
        Instruction_Marshal_def Let_def)

end
